theory Spec2Isabelle
  imports Main "HOL-Library.Word"
begin

section \<open>Strings of the generator\<close>

text \<open>
  A JavaScript string is a sequence of UTF-16 code units. The literals of
  \<^verbatim>\<open>generate.mjs\<close> used below are ASCII; \<open>js\<close> turns such a literal into code units.
\<close>

type_synonym jschar = "16 word"
type_synonym jsstring = "jschar list"

definition js :: "string \<Rightarrow> jsstring" where
  "js s = map (\<lambda>c. of_char c) s"

text \<open>
  The class \<^verbatim>\<open>\s\<close> of a regular expression without the unicode flag: the white space
  and line terminator code units of ECMAScript.
\<close>

definition isWhitespace :: "jschar \<Rightarrow> bool" where
  "isWhitespace c \<longleftrightarrow>
     c = 0x09 \<or> c = 0x0A \<or> c = 0x0B \<or> c = 0x0C \<or> c = 0x0D \<or> c = 0x20 \<or>
     c = 0xA0 \<or> c = 0x1680 \<or> (0x2000 \<le> c \<and> c \<le> 0x200A) \<or>
     c = 0x2028 \<or> c = 0x2029 \<or> c = 0x202F \<or> c = 0x205F \<or> c = 0x3000 \<or>
     c = 0xFEFF"

definition quoteChar :: jschar where
  "quoteChar = 0x22"

definition slashChar :: jschar where
  "slashChar = 0x2F"

text \<open>\<^verbatim>\<open>s.replace(/"/g, r)\<close>: every double quote becomes \<open>r\<close>.\<close>

fun replaceQuotes :: "jsstring \<Rightarrow> jsstring \<Rightarrow> jsstring" where
  "replaceQuotes r [] = []"
| "replaceQuotes r (c # cs) =
     (if c = quoteChar then r @ replaceQuotes r cs else c # replaceQuotes r cs)"

text \<open>
  \<^verbatim>\<open>s.replace(/\s+/g, r)\<close>: every maximal run of white space becomes one \<open>r\<close>. The
  flag \<open>inRun\<close> says that the code unit before the current one was white space, so that
  the run it belongs to has been replaced already.
\<close>

fun replaceWsFrom :: "bool \<Rightarrow> jsstring \<Rightarrow> jsstring \<Rightarrow> jsstring" where
  "replaceWsFrom inRun r [] = []"
| "replaceWsFrom inRun r (c # cs) =
     (if isWhitespace c
      then (if inRun then replaceWsFrom True r cs else r @ replaceWsFrom True r cs)
      else c # replaceWsFrom False r cs)"

definition replaceWhitespaceRuns :: "jsstring \<Rightarrow> jsstring \<Rightarrow> jsstring" where
  "replaceWhitespaceRuns r s = replaceWsFrom False r s"

text \<open>
  \<^verbatim>\<open>function sanitizeSize(sizeName) {
    return sizeName.replace(/"/g, '_').replace(/\s+/g, '_');
  }\<close>
\<close>

definition sanitizeSize :: "jsstring \<Rightarrow> jsstring" where
  "sanitizeSize sizeName =
     replaceWhitespaceRuns (js ''_'') (replaceQuotes (js ''_'') sizeName)"

text \<open>
  \<^verbatim>\<open>toLowerCase\<close>, for labels written in ASCII: the letters A to Z are lowered and
  every other code unit is kept. The case tables of Unicode are not reproduced, so for
  a label with a letter outside ASCII that has a lower case (such as U+00C9) the result
  differs from the one of the generator. The generator uses the result in two places.
  It searches it for \<^verbatim>\<open>ipad\<close> and \<^verbatim>\<open>iphone\<close>: the outcome of that search is the same
  for every label, since no code unit outside A to Z lowers to letters of these words
  next to one another (U+0130 lowers to \<^verbatim>\<open>i\<close> followed by U+0307, U+212A to \<^verbatim>\<open>k\<close>). And
  \<^verbatim>\<open>getDeviceSelectorAttr\<close> makes the device key of a size without \<^verbatim>\<open>yuzuDevice\<close> from
  it: for a label outside ASCII the selector that \<^verbatim>\<open>selectOutputSize\<close> clicks may differ
  from the one modelled. No property below depends on the text of that selector.
\<close>

definition toLowerChar :: "jschar \<Rightarrow> jschar" where
  "toLowerChar c = (if 0x41 \<le> c \<and> c \<le> 0x5A then c + 0x20 else c)"

definition toLowerCase :: "jsstring \<Rightarrow> jsstring" where
  "toLowerCase s = map toLowerChar s"

primrec startsWith :: "jsstring \<Rightarrow> jsstring \<Rightarrow> bool" where
  "startsWith [] n = (n = [])"
| "startsWith (c # cs) n = (case n of [] \<Rightarrow> True | d # ds \<Rightarrow> c = d \<and> startsWith cs ds)"

primrec includesStr :: "jsstring \<Rightarrow> jsstring \<Rightarrow> bool" where
  "includesStr [] n = (n = [])"
| "includesStr (c # cs) n = (startsWith (c # cs) n \<or> includesStr cs n)"

text \<open>
  \<^verbatim>\<open>function getDeviceSelectorAttr(sizeName) {
    return sizeName.toLowerCase().replace(/\s+/g, '-').replace(/"/g, '');
  }\<close>
\<close>

definition getDeviceSelectorAttr :: "jsstring \<Rightarrow> jsstring" where
  "getDeviceSelectorAttr sizeName =
     replaceQuotes [] (replaceWhitespaceRuns (js ''-'') (toLowerCase sizeName))"

section \<open>Paths\<close>

text \<open>
  \<^verbatim>\<open>join\<close> of Node's \<^verbatim>\<open>path\<close> module, POSIX flavour: the non-empty arguments are glued
  with a slash and the result is normalised. Normalising walks the segments between
  slashes: an empty segment and \<^verbatim>\<open>.\<close> are dropped, \<^verbatim>\<open>..\<close> removes the segment before it
  (or stays, in a relative path that has nothing left to remove), any other segment is
  kept. The segments kept so far are held with the last one first.
\<close>

fun splitSlash :: "jsstring \<Rightarrow> jsstring list" where
  "splitSlash [] = [[]]"
| "splitSlash (c # cs) =
     (if c = slashChar then [] # splitSlash cs
      else (case splitSlash cs of [] \<Rightarrow> [[c]] | s # ss \<Rightarrow> (c # s) # ss))"

definition normalizeStep :: "bool \<Rightarrow> jsstring list \<Rightarrow> jsstring \<Rightarrow> jsstring list" where
  "normalizeStep allowAboveRoot res seg =
     (if seg = [] \<or> seg = js ''.'' then res
      else if seg = js ''..'' then
        (case res of
           [] \<Rightarrow> (if allowAboveRoot then [seg] else [])
         | r # rs \<Rightarrow>
             (if r = js ''..'' then (if allowAboveRoot then seg # res else res) else rs))
      else seg # res)"

definition normalizeString :: "bool \<Rightarrow> jsstring \<Rightarrow> jsstring list" where
  "normalizeString allowAboveRoot path =
     rev (foldl (normalizeStep allowAboveRoot) [] (splitSlash path))"

fun joinWith :: "jsstring \<Rightarrow> jsstring list \<Rightarrow> jsstring" where
  "joinWith sep [] = []"
| "joinWith sep [x] = x"
| "joinWith sep (x # y # ys) = x @ sep @ joinWith sep (y # ys)"

definition isAbsolute :: "jsstring \<Rightarrow> bool" where
  "isAbsolute path = (case path of [] \<Rightarrow> False | c # _ \<Rightarrow> c = slashChar)"

definition trailingSeparator :: "jsstring \<Rightarrow> bool" where
  "trailingSeparator path = (path \<noteq> [] \<and> last path = slashChar)"

definition normalizePath :: "jsstring \<Rightarrow> jsstring" where
  "normalizePath path =
     (if path = [] then js ''.''
      else
        (let p = joinWith (js ''/'') (normalizeString (\<not> isAbsolute path) path) in
         if p = [] then
           (if isAbsolute path then js ''/''
            else if trailingSeparator path then js ''./'' else js ''.'')
         else
           (if isAbsolute path then js ''/'' else []) @ p @
           (if trailingSeparator path then js ''/'' else [])))"

definition join :: "jsstring list \<Rightarrow> jsstring" where
  "join args =
     (let parts = filter (\<lambda>a. a \<noteq> []) args in
      if parts = [] then js ''.'' else normalizePath (joinWith (js ''/'') parts))"

text \<open>
  \<^verbatim>\<open>dirname\<close> of the same module: trailing slashes are skipped, then the last segment,
  and the path is cut at the slash before it; the first code unit is never cut away.
\<close>

definition dirnamePath :: "jsstring \<Rightarrow> jsstring" where
  "dirnamePath path =
     (if path = [] then js ''.''
      else
        (let hasRoot = (hd path = slashChar);
             afterName = dropWhile (\<lambda>c. c \<noteq> slashChar)
                           (dropWhile (\<lambda>c. c = slashChar) (rev (tl path)));
             end = length afterName
         in if afterName = [] then (if hasRoot then js ''/'' else js ''.'')
            else if hasRoot \<and> end = 1 then js ''//''
            else take end path))"

section \<open>Configuration\<close>

text \<open>
  The configuration as \<^verbatim>\<open>JSON.parse\<close> returns it. An object whose keys matter
  (\<^verbatim>\<open>titles\<close>) is the list of its entries in the order of \<^verbatim>\<open>Object.keys\<close>; an
  optional field is an \<open>option\<close>; a JSON value that is only handed on to the page is a
  \<open>jsval\<close>.
\<close>

datatype jsval = Str jsstring | Num int

record screenshot =
  screenshotId :: jsstring
  titles :: "(jsstring \<times> jsstring) list"

record border =
  borderWidth :: jsval
  borderColor :: jsval
  borderOpacity :: "jsval option"

record sizeSpec =
  device :: jsstring
  width :: jsval
  height :: jsval
  yuzuDevice :: "jsstring option"
  rawDir :: "jsstring option"
  sizeCornerRadius :: "jsval option"
  border :: "border option"

text \<open>
  \<^verbatim>\<open>design.device\<close> may be missing as a whole (\<open>None\<close>), or be there without a
  \<^verbatim>\<open>cornerRadius\<close> (\<open>Some None\<close>).
\<close>

record design =
  color1 :: jsstring
  color2 :: jsstring
  angle :: jsval
  designDevice :: "jsval option option"
  font :: "jsstring option"
  headlineWeight :: "jsstring option"
  headlineColor :: jsstring
  verticalOffset :: "jsval option"

record config =
  screenshots :: "screenshot list"
  designOf :: design
  outputPath :: jsstring
  sizes :: "sizeSpec list"

definition MAX_RETRIES :: nat where
  "MAX_RETRIES = 3"

definition CANVAS_WAIT_MS :: nat where
  "CANVAS_WAIT_MS = 2000"

definition DOWNLOAD_TIMEOUT_MS :: nat where
  "DOWNLOAD_TIMEOUT_MS = 30000"

definition PER_SCREENSHOT_TIMEOUT_MS :: nat where
  "PER_SCREENSHOT_TIMEOUT_MS = 90000"

text \<open>
  \<^verbatim>\<open>const yuzuBaseUrl = args.includes('--yuzu-url')
    ? args[args.indexOf('--yuzu-url') + 1] : null;\<close>
  \<open>None\<close> stands for \<^verbatim>\<open>null\<close> and for the \<^verbatim>\<open>undefined\<close> read past the end of \<open>args\<close>.
\<close>

fun argAfter :: "jsstring \<Rightarrow> jsstring list \<Rightarrow> jsstring option" where
  "argAfter flag [] = None"
| "argAfter flag (a # as) =
     (if a = flag then (case as of [] \<Rightarrow> None | b # _ \<Rightarrow> Some b) else argAfter flag as)"

definition yuzuBaseUrl :: "jsstring list \<Rightarrow> jsstring option" where
  "yuzuBaseUrl args =
     (if js ''--yuzu-url'' \<in> set args then argAfter (js ''--yuzu-url'') args else None)"

text \<open>Truthiness of a string that may be \<^verbatim>\<open>null\<close> or \<^verbatim>\<open>undefined\<close>.\<close>

definition truthy :: "jsstring option \<Rightarrow> bool" where
  "truthy v = (case v of None \<Rightarrow> False | Some x \<Rightarrow> x \<noteq> [])"

text \<open>\<^verbatim>\<open>v || d\<close> on such a string.\<close>

definition orElse :: "jsstring option \<Rightarrow> jsstring \<Rightarrow> jsstring" where
  "orElse v d = (case v of None \<Rightarrow> d | Some x \<Rightarrow> if x = [] then d else x)"

section \<open>The world outside the generator\<close>

text \<open>
  The generator talks to the network, the file system and, through Playwright, to a
  browser. Each such call is a value of type \<open>call\<close>; a world \<open>W\<close> answers a call in its
  current state with an exception or a number (a handle, a count, or a truth value
  that is false at 0) and moves to its next state. Nothing more is assumed of the world:
  every theorem that quantifies over \<open>W\<close> holds whatever the browser does. Every call is
  taken to return or throw.
\<close>

datatype exn = TypeError | Thrown string

text \<open>
  How an operation of the generator can fail: with an exception that a \<^verbatim>\<open>catch\<close> block
  receives, or with the end of the process. Node ends the process with status 1 when a
  promise is rejected and nothing handles the rejection; no \<^verbatim>\<open>catch\<close> and no
  \<^verbatim>\<open>finally\<close> of the program runs after that.
\<close>

datatype failure = Raised exn | Unhandled exn

datatype locator =
    Css jsstring
  | NthOf locator nat
  | Within locator jsstring
  | FirstOf locator

datatype script =
    DispatchSizeEvents
  | CanvasHasContent
  | SetValue jsstring jsval
  | SetFrame jsval jsval jsval

datatype pagecall =
    Goto jsstring
  | Reload
  | WaitForTimeout nat
  | Click locator "nat option"
  | Fill locator jsval
  | SetInputFiles locator jsstring
  | SelectOption locator jsstring
  | WaitForSelector jsstring nat
  | CountAll locator
  | IsActive locator
  | Evaluate script
  | ExpectDownload nat
  | AwaitDownload
  | AbandonedDownload
  | SaveAs jsstring

datatype call =
    Fetch jsstring nat
  | Access jsstring
  | Mkdir jsstring
  | Launch
  | BrowserClose nat
  | NewContext nat
  | NewPage nat
  | ContextClose nat
  | OnPage nat pagecall

datatype logmsg =
    UsingCliUrl jsstring
  | UsingLocal
  | UsingLiveDemo
  | RawNotFound jsstring jsstring
  | Processing jsstring nat nat
  | Done jsstring
  | AttemptError jsstring exn
  | Retrying jsstring
  | FailedAfter jsstring nat
  | CanvasBlank
  | PresetUnavailable
  | FontNotFound jsstring
  | BrowserCrashed
  | SizeHeader jsstring jsval jsval
  | Navigating
  | Refreshing nat
  | Recovering exn
  | Skipping exn
  | Banner
  | ConfigLoaded nat nat nat nat
  | Wave1 "jsstring list"
  | WaveSequential jsstring
  | Complete nat nat nat
  | SomeFailed
  | AllGenerated
  | FatalError exn

text \<open>
  The state of a run: the world, the calls made so far, the lines written to the
  console so far, and the variable \<^verbatim>\<open>browser\<close> of the \<^verbatim>\<open>processSize\<close> that is running.
\<close>

record 'w st =
  world :: 'w
  calls :: "call list"
  console :: "logmsg list"
  browser :: "nat option"

type_synonym 'w world = "call \<Rightarrow> 'w \<Rightarrow> (exn + nat) \<times> 'w"
type_synonym ('a, 'w) io = "'w st \<Rightarrow> (failure + 'a) \<times> 'w st"

definition returnIO :: "'a \<Rightarrow> ('a, 'w) io" where
  "returnIO a s = (Inr a, s)"

definition throwIO :: "exn \<Rightarrow> ('a, 'w) io" where
  "throwIO e s = (Inl (Raised e), s)"

definition bindIO :: "('a, 'w) io \<Rightarrow> ('a \<Rightarrow> ('b, 'w) io) \<Rightarrow> ('b, 'w) io" where
  "bindIO m f s = (case m s of (Inl e, s') \<Rightarrow> (Inl e, s') | (Inr a, s') \<Rightarrow> f a s')"

definition thenIO :: "('a, 'w) io \<Rightarrow> ('b, 'w) io \<Rightarrow> ('b, 'w) io" where
  "thenIO m n = bindIO m (\<lambda>_. n)"

definition tryCatch :: "('a, 'w) io \<Rightarrow> (exn \<Rightarrow> ('a, 'w) io) \<Rightarrow> ('a, 'w) io" where
  "tryCatch m h s =
     (case m s of
        (Inl (Raised e), s') \<Rightarrow> h e s'
      | (Inl (Unhandled e), s') \<Rightarrow> (Inl (Unhandled e), s')
      | (Inr a, s') \<Rightarrow> (Inr a, s'))"

text \<open>\<^verbatim>\<open>try { m } catch {}\<close>\<close>

definition tryIgnore :: "(unit, 'w) io \<Rightarrow> (unit, 'w) io" where
  "tryIgnore m = tryCatch m (\<lambda>_. returnIO ())"

text \<open>\<^verbatim>\<open>try { m } finally { f }\<close>, for a finaliser that does not return a value.\<close>

definition finallyIO :: "('a, 'w) io \<Rightarrow> (unit, 'w) io \<Rightarrow> ('a, 'w) io" where
  "finallyIO m f s =
     (case m s of
        (Inl (Unhandled e), s') \<Rightarrow> (Inl (Unhandled e), s')
      | (r, s') \<Rightarrow>
          (case f s' of (Inl e, s'') \<Rightarrow> (Inl e, s'') | (Inr _, s'') \<Rightarrow> (r, s'')))"

fun seqIO :: "(unit, 'w) io list \<Rightarrow> (unit, 'w) io" where
  "seqIO [] = returnIO ()"
| "seqIO (m # ms) = thenIO m (seqIO ms)"

definition logIO :: "logmsg \<Rightarrow> (unit, 'w) io" where
  "logIO msg s = (Inr (), s\<lparr>console := console s @ [msg]\<rparr>)"

definition perform :: "'w world \<Rightarrow> call \<Rightarrow> (nat, 'w) io" where
  "perform W c s =
     (case W c (world s) of
        (Inl e, w') \<Rightarrow> (Inl (Raised e), s\<lparr>world := w', calls := calls s @ [c]\<rparr>)
      | (Inr n, w') \<Rightarrow> (Inr n, s\<lparr>world := w', calls := calls s @ [c]\<rparr>))"

definition act :: "'w world \<Rightarrow> call \<Rightarrow> (unit, 'w) io" where
  "act W c = bindIO (perform W c) (\<lambda>_. returnIO ())"

text \<open>A call that is only started: it is recorded, its outcome is awaited later.\<close>

definition announce :: "call \<Rightarrow> (unit, 'w) io" where
  "announce c s = (Inr (), s\<lparr>calls := calls s @ [c]\<rparr>)"

definition pageDo :: "'w world \<Rightarrow> nat \<Rightarrow> pagecall \<Rightarrow> (unit, 'w) io" where
  "pageDo W page pc = act W (OnPage page pc)"

definition pageAsk :: "'w world \<Rightarrow> nat \<Rightarrow> pagecall \<Rightarrow> (nat, 'w) io" where
  "pageAsk W page pc = perform W (OnPage page pc)"

section \<open>Resolving the address of the remote UI\<close>

text \<open>
  \<^verbatim>\<open>async function detectYuzuUrl() {
    if (yuzuBaseUrl) { console.log(...); return yuzuBaseUrl; }
    try {
      const response = await fetch('http://localhost:8080',
        { method: 'HEAD', signal: AbortSignal.timeout(3000) });
      if (response.ok) { console.log(...); return 'http://localhost:8080'; }
    } catch (err) { }
    console.log(...);
    return 'https://yuzu-hub.github.io/appscreen/';
  }\<close>
  The \<^verbatim>\<open>try\<close> block yields the value it returns, or \<open>None\<close> when control leaves it
  at its end or through the \<^verbatim>\<open>catch\<close>.
\<close>

definition localUrl :: jsstring where
  "localUrl = js ''http://localhost:8080''"

definition liveDemoUrl :: jsstring where
  "liveDemoUrl = js ''https://yuzu-hub.github.io/appscreen/''"

definition detectYuzuUrl :: "'w world \<Rightarrow> jsstring option \<Rightarrow> (jsstring, 'w) io" where
  "detectYuzuUrl W baseUrl =
     (if truthy baseUrl then
        thenIO (logIO (UsingCliUrl (the baseUrl))) (returnIO (the baseUrl))
      else
        bindIO
          (tryCatch
             (bindIO (perform W (Fetch localUrl 3000)) (\<lambda>ok.
                if ok \<noteq> 0 then thenIO (logIO UsingLocal) (returnIO (Some localUrl))
                else returnIO None))
             (\<lambda>err. returnIO None))
          (\<lambda>found. case found of
             Some url \<Rightarrow> returnIO url
           | None \<Rightarrow> thenIO (logIO UsingLiveDemo) (returnIO liveDemoUrl)))"

section \<open>Operations on the page\<close>

text \<open>\<^verbatim>\<open>ensureDir(path)\<close>: \<^verbatim>\<open>try { await access(path) } catch { await mkdir(path, ...) }\<close>\<close>

definition ensureDir :: "'w world \<Rightarrow> jsstring \<Rightarrow> (unit, 'w) io" where
  "ensureDir W path = tryCatch (act W (Access path)) (\<lambda>_. act W (Mkdir path))"

definition waitForCanvasRender :: "'w world \<Rightarrow> nat \<Rightarrow> (unit, 'w) io" where
  "waitForCanvasRender W page =
     thenIO (pageDo W page (WaitForTimeout CANVAS_WAIT_MS))
       (bindIO (pageAsk W page (Evaluate CanvasHasContent)) (\<lambda>hasContent.
          if hasContent = 0 then
            thenIO (logIO CanvasBlank) (pageDo W page (WaitForTimeout 1000))
          else returnIO ()))"

text \<open>
  \<^verbatim>\<open>clearYuzuScreenshots\<close>: the loop \<^verbatim>\<open>while (attempts < 40)\<close>. The \<^verbatim>\<open>try\<close> block yields
  \<open>True\<close> when the loop goes on and \<open>False\<close> for the \<^verbatim>\<open>break\<close> of its \<^verbatim>\<open>catch\<close>.
\<close>

definition itemsLocator :: locator where
  "itemsLocator = Css (js ''.screenshot-item:not(.upload-item)'')"

function clearLoop :: "'w world \<Rightarrow> nat \<Rightarrow> nat \<Rightarrow> (unit, 'w) io" where
  "clearLoop W page attempts =
     (if attempts < 40 then
        bindIO (pageAsk W page (CountAll itemsLocator)) (\<lambda>items.
          if items = 0 then returnIO ()
          else
            bindIO
              (tryCatch
                 (thenIO
                    (seqIO
                       [pageDo W page
                          (Click (Within (NthOf itemsLocator 0) (js ''.screenshot-menu-btn''))
                             (Some 2000)),
                        pageDo W page (WaitForTimeout 150),
                        pageDo W page
                          (Click (Css (js ''.screenshot-menu-item.screenshot-delete''))
                             (Some 2000)),
                        pageDo W page (WaitForTimeout 150)])
                    (returnIO True))
                 (\<lambda>_. returnIO False))
              (\<lambda>goOn. if goOn then clearLoop W page (attempts + 1) else returnIO ()))
      else returnIO ())"
  by pat_completeness auto
termination
  by (relation "measure (\<lambda>(W, page, attempts). 40 - attempts)") auto

definition clearYuzuScreenshots :: "'w world \<Rightarrow> nat \<Rightarrow> (unit, 'w) io" where
  "clearYuzuScreenshots W page = clearLoop W page 0"

definition uploadScreenshot :: "'w world \<Rightarrow> nat \<Rightarrow> jsstring \<Rightarrow> (unit, 'w) io" where
  "uploadScreenshot W page screenshotPath =
     seqIO
       [clearYuzuScreenshots W page,
        pageDo W page (SetInputFiles (Css (js ''#file-input'')) screenshotPath),
        pageDo W page (WaitForTimeout 500),
        tryIgnore
          (seqIO
             [pageDo W page (Click (FirstOf itemsLocator) (Some 2000)),
              pageDo W page (WaitForTimeout 200)])]"

definition deviceOption :: "jsstring \<Rightarrow> locator" where
  "deviceOption deviceAttr = Css (js ''.device-option[data-device=\"'' @ deviceAttr @ js ''\"]'')"

definition selectOutputSize :: "'w world \<Rightarrow> nat \<Rightarrow> sizeSpec \<Rightarrow> (unit, 'w) io" where
  "selectOutputSize W page size' =
     (let deviceAttr =
            (if truthy (yuzuDevice size') then the (yuzuDevice size')
             else getDeviceSelectorAttr (device size'))
      in seqIO
           [pageDo W page (Click (Css (js ''#output-size-trigger'')) None),
            pageDo W page (WaitForTimeout 300),
            if deviceAttr = js ''custom'' then
              seqIO
                [pageDo W page (Click (deviceOption (js ''custom'')) None),
                 pageDo W page (WaitForTimeout 500),
                 pageDo W page (WaitForSelector (js ''#custom-size-inputs.visible'') 5000),
                 pageDo W page (Fill (Css (js ''#custom-width'')) (width size')),
                 pageDo W page (WaitForTimeout 200),
                 pageDo W page (Fill (Css (js ''#custom-height'')) (height size')),
                 pageDo W page (WaitForTimeout 500),
                 pageDo W page (Evaluate DispatchSizeEvents),
                 pageDo W page (WaitForTimeout 500)]
            else
              seqIO
                [pageDo W page (Click (deviceOption deviceAttr) None),
                 pageDo W page (WaitForTimeout 500)]])"

definition gradientStops :: locator where
  "gradientStops = Css (js ''#gradient-stops .gradient-stop'')"

definition configureBackground :: "'w world \<Rightarrow> nat \<Rightarrow> design \<Rightarrow> (unit, 'w) io" where
  "configureBackground W page design =
     seqIO
       [pageDo W page (Click (Css (js ''button.tab[data-tab=\"background\"]'')) None),
        pageDo W page (WaitForTimeout 300),
        pageDo W page (Click (Css (js ''#bg-type-selector button[data-type=\"gradient\"]'')) None),
        pageDo W page (WaitForTimeout 300),
        pageDo W page (Fill (Css (js ''#gradient-angle'')) (angle design)),
        pageDo W page (WaitForTimeout 200),
        bindIO (pageAsk W page (CountAll gradientStops)) (\<lambda>stops.
          if 2 \<le> stops then
            seqIO
              [pageDo W page
                 (Fill (Within (NthOf gradientStops 0) (js ''input[type=\"color\"]''))
                    (Str (color1 design))),
               pageDo W page
                 (Fill (Within (NthOf gradientStops 1) (js ''input[type=\"color\"]''))
                    (Str (color2 design))),
               pageDo W page (WaitForTimeout 200)]
          else returnIO ())]"

text \<open>
  \<^verbatim>\<open>size.cornerRadius ?? design.device.cornerRadius ?? 24\<close>: reading \<^verbatim>\<open>cornerRadius\<close>
  of a missing \<^verbatim>\<open>design.device\<close> throws, and it is read only when the size has no radius
  of its own.
\<close>

definition cornerRadiusOf :: "sizeSpec \<Rightarrow> design \<Rightarrow> (jsval, 'w) io" where
  "cornerRadiusOf size' design =
     (case sizeCornerRadius size' of
        Some r \<Rightarrow> returnIO r
      | None \<Rightarrow>
          (case designDevice design of
             None \<Rightarrow> throwIO TypeError
           | Some None \<Rightarrow> returnIO (Num 24)
           | Some (Some r) \<Rightarrow> returnIO r))"

definition frameToggle :: locator where
  "frameToggle = Css (js ''#frame-toggle'')"

definition configureDevice :: "'w world \<Rightarrow> nat \<Rightarrow> design \<Rightarrow> sizeSpec \<Rightarrow> (unit, 'w) io" where
  "configureDevice W page design size' =
     seqIO
       [pageDo W page (Click (Css (js ''button.tab[data-tab=\"screenshot\"]'')) None),
        pageDo W page (WaitForTimeout 500),
        pageDo W page (WaitForSelector (js ''#device-type-selector'') 5000),
        pageDo W page (Click (Css (js ''#device-type-selector button[data-type=\"2d\"]'')) None),
        pageDo W page (WaitForTimeout 500),
        tryCatch
          (seqIO
             [pageDo W page (Click (Css (js ''#position-preset-trigger'')) None),
              pageDo W page (WaitForSelector (js ''#position-preset-content'') 3000),
              pageDo W page
                (Click (Css (js ''button.position-preset[data-preset=\"bleed-bottom\"]'')) None),
              pageDo W page (WaitForTimeout 300)])
          (\<lambda>err. logIO PresetUnavailable),
        bindIO (cornerRadiusOf size' design) (\<lambda>cornerRadius.
          pageDo W page (Evaluate (SetValue (js ''corner-radius'') cornerRadius))),
        pageDo W page (WaitForTimeout 200),
        case border size' of
          None \<Rightarrow> returnIO ()
        | Some b \<Rightarrow>
            seqIO
              [pageDo W page (Click frameToggle None),
               pageDo W page (WaitForTimeout 500),
               bindIO (pageAsk W page (IsActive frameToggle)) (\<lambda>borderActive.
                 if borderActive = 0 then
                   seqIO
                     [pageDo W page (Click frameToggle None),
                      pageDo W page (WaitForTimeout 500)]
                 else returnIO ()),
               pageDo W page
                 (Evaluate
                    (SetFrame (borderWidth b) (borderColor b)
                       (case borderOpacity b of None \<Rightarrow> Num 100 | Some opacity \<Rightarrow> opacity))),
               pageDo W page (WaitForTimeout 200)]]"

definition headlineToggle :: locator where
  "headlineToggle = Css (js ''#headline-toggle'')"

definition subheadlineToggle :: locator where
  "subheadlineToggle = Css (js ''#subheadline-toggle'')"

text \<open>
  \<open>titleText\<close> is \<^verbatim>\<open>screenshot.titles[locale]\<close>, which is \<^verbatim>\<open>undefined\<close> (\<open>None\<close>) for a
  locale that is not a key; \<^verbatim>\<open>page.fill\<close> rejects a value that is not a string with an
  error of Playwright's.
\<close>

definition configureText :: "'w world \<Rightarrow> nat \<Rightarrow> design \<Rightarrow> jsstring option \<Rightarrow> (unit, 'w) io" where
  "configureText W page design titleText =
     (let fontName = orElse (font design) (js ''Open Sans'');
          weight = orElse (headlineWeight design) (js ''900'');
          textOffsetY = (case verticalOffset design of None \<Rightarrow> Num 12 | Some v \<Rightarrow> v)
      in seqIO
           [pageDo W page (Click (Css (js ''button.tab[data-tab=\"text\"]'')) None),
            pageDo W page (WaitForTimeout 300),
            bindIO (pageAsk W page (IsActive headlineToggle)) (\<lambda>isEnabled.
              if isEnabled = 0 then
                seqIO
                  [pageDo W page (Click headlineToggle None),
                   pageDo W page (WaitForTimeout 500)]
              else returnIO ()),
            (case titleText of
               None \<Rightarrow> throwIO (Thrown ''fill: expected string, got undefined'')
             | Some t \<Rightarrow> pageDo W page (Fill (Css (js ''#headline-text'')) (Str t))),
            pageDo W page (WaitForTimeout 300),
            pageDo W page (Click (Css (js ''#font-picker-trigger'')) None),
            pageDo W page (WaitForTimeout 200),
            pageDo W page (Fill (Css (js ''#font-search'')) (Str fontName)),
            pageDo W page (WaitForTimeout 300),
            tryCatch
              (seqIO
                 [pageDo W page
                    (Click (Css (js ''.font-option:has-text(\"'' @ fontName @ js ''\")''))
                       (Some 3000)),
                  pageDo W page (WaitForTimeout 200)])
              (\<lambda>error. logIO (FontNotFound fontName)),
            pageDo W page (SelectOption (Css (js ''#headline-weight'')) weight),
            pageDo W page (WaitForTimeout 200),
            pageDo W page (Fill (Css (js ''#headline-color'')) (Str (headlineColor design))),
            pageDo W page (WaitForTimeout 200),
            pageDo W page (Evaluate (SetValue (js ''text-offset-y'') textOffsetY)),
            pageDo W page (WaitForTimeout 200),
            bindIO (pageAsk W page (IsActive subheadlineToggle)) (\<lambda>subEnabled.
              if subEnabled \<noteq> 0 then
                seqIO
                  [pageDo W page (Click subheadlineToggle None),
                   pageDo W page (WaitForTimeout 300)]
              else returnIO ()),
            waitForCanvasRender W page])"

text \<open>
  \<^verbatim>\<open>exportScreenshot\<close>:
  \<^verbatim>\<open>await ensureDir(dirname(outputPath));
  const downloadPromise = page.waitForEvent('download', { timeout: DOWNLOAD_TIMEOUT_MS });
  await page.click('#export-current');
  const download = await downloadPromise;
  await download.saveAs(outputPath);\<close>
  The listener for the download is armed before the click and awaited only after it.
  When the click throws, nothing awaits the listener any more. The world says how the
  abandoned listener settles (\<open>AbandonedDownload\<close>): if a download did arrive, the
  exception of the click goes on to the caller; if the listener is rejected (it times
  out, or the page goes away), the rejection has no handler and the process ends. The
  model takes the process to end where the click throws; what the program may still do
  until the runtime ends it is not modelled.
\<close>

definition abandonDownload :: "'w world \<Rightarrow> nat \<Rightarrow> exn \<Rightarrow> (unit, 'w) io" where
  "abandonDownload W page clickError s =
     (case perform W (OnPage page AbandonedDownload) s of
        (Inr _, s') \<Rightarrow> (Inl (Raised clickError), s')
      | (Inl (Raised rejection), s') \<Rightarrow> (Inl (Unhandled rejection), s')
      | (Inl (Unhandled rejection), s') \<Rightarrow> (Inl (Unhandled rejection), s'))"

definition exportScreenshot :: "'w world \<Rightarrow> nat \<Rightarrow> jsstring \<Rightarrow> (unit, 'w) io" where
  "exportScreenshot W page outPath =
     seqIO
       [ensureDir W (dirnamePath outPath),
        announce (OnPage page (ExpectDownload DOWNLOAD_TIMEOUT_MS)),
        tryCatch (pageDo W page (Click (Css (js ''#export-current'')) None))
          (abandonDownload W page),
        pageDo W page AwaitDownload,
        pageDo W page (SaveAs outPath)]"

section \<open>One task, with retries\<close>

text \<open>
  The paths of a task, as \<^verbatim>\<open>processScreenshot\<close> computes them; \<open>dirName\<close> is
  \<^verbatim>\<open>__dirname\<close>:
  \<^verbatim>\<open>const sizeRawDir = join(__dirname, size.rawDir || 'raw');
  const rawPath = join(sizeRawDir, locale, `${screenshotId}.png`);
  const sizeFolder = sanitizeSize(size.device);
  const outputPath = join(outputDir, locale, sizeFolder, `${screenshotId}.png`);
  const logPrefix = `  [${locale}] [${size.device}] ${screenshotId}`;\<close>
\<close>

definition rawPathOf :: "jsstring \<Rightarrow> sizeSpec \<Rightarrow> jsstring \<Rightarrow> screenshot \<Rightarrow> jsstring" where
  "rawPathOf dirName size' locale screenshot =
     join [join [dirName, orElse (rawDir size') (js ''raw'')], locale,
           screenshotId screenshot @ js ''.png'']"

definition outputPathOf :: "jsstring \<Rightarrow> jsstring \<Rightarrow> sizeSpec \<Rightarrow> screenshot \<Rightarrow> jsstring" where
  "outputPathOf outputDir locale size' screenshot =
     join [outputDir, locale, sanitizeSize (device size'),
           screenshotId screenshot @ js ''.png'']"

definition logPrefixOf :: "jsstring \<Rightarrow> sizeSpec \<Rightarrow> screenshot \<Rightarrow> jsstring" where
  "logPrefixOf locale size' screenshot =
     js ''  ['' @ locale @ js ''] ['' @ device size' @ js ''] '' @ screenshotId screenshot"

text \<open>
  The \<^verbatim>\<open>try\<close> block of \<^verbatim>\<open>processScreenshot\<close>. Its value is what the function returns
  from inside the block: \<open>False\<close> when the raw screenshot cannot be accessed, \<open>True\<close>
  after the export. An exception of any other step leaves the block.
\<close>

definition attemptBody ::
  "'w world \<Rightarrow> jsstring \<Rightarrow> nat \<Rightarrow> screenshot \<Rightarrow> jsstring \<Rightarrow> sizeSpec \<Rightarrow> design \<Rightarrow> jsstring \<Rightarrow>
     nat \<Rightarrow> (bool, 'w) io" where
  "attemptBody W dirName page screenshot locale size' design outputDir attempt =
     (let title = map_of (titles screenshot) locale;
          rawPath = rawPathOf dirName size' locale screenshot;
          outPath = outputPathOf outputDir locale size' screenshot;
          logPrefix = logPrefixOf locale size' screenshot
      in bindIO
           (tryCatch (thenIO (act W (Access rawPath)) (returnIO True))
              (\<lambda>_. thenIO (logIO (RawNotFound logPrefix rawPath)) (returnIO False)))
           (\<lambda>found.
              if \<not> found then returnIO False
              else
                thenIO (logIO (Processing logPrefix attempt MAX_RETRIES))
                  (thenIO
                     (seqIO
                        [pageDo W page Reload,
                         pageDo W page (WaitForTimeout 500),
                         selectOutputSize W page size',
                         uploadScreenshot W page rawPath,
                         configureBackground W page design,
                         configureDevice W page design size',
                         configureText W page design title,
                         exportScreenshot W page outPath])
                     (thenIO (logIO (Done logPrefix)) (returnIO True)))))"

text \<open>What the \<^verbatim>\<open>catch\<close> block does before it calls \<^verbatim>\<open>processScreenshot\<close> again.\<close>

definition beforeRetry :: "'w world \<Rightarrow> nat \<Rightarrow> jsstring \<Rightarrow> (unit, 'w) io" where
  "beforeRetry W page logPrefix =
     seqIO
       [logIO (Retrying logPrefix),
        pageDo W page (WaitForTimeout 1500),
        pageDo W page Reload,
        pageDo W page (WaitForTimeout 1000)]"

function processScreenshot ::
  "'w world \<Rightarrow> jsstring \<Rightarrow> nat \<Rightarrow> screenshot \<Rightarrow> jsstring \<Rightarrow> sizeSpec \<Rightarrow> design \<Rightarrow> jsstring \<Rightarrow>
     nat \<Rightarrow> (bool, 'w) io" where
  "processScreenshot W dirName page screenshot locale size' design outputDir attempt =
     tryCatch (attemptBody W dirName page screenshot locale size' design outputDir attempt)
       (\<lambda>error.
          thenIO (logIO (AttemptError (logPrefixOf locale size' screenshot) error))
            (if attempt < MAX_RETRIES then
               thenIO (beforeRetry W page (logPrefixOf locale size' screenshot))
                 (processScreenshot W dirName page screenshot locale size' design outputDir
                    (attempt + 1))
             else
               thenIO (logIO (FailedAfter (logPrefixOf locale size' screenshot) MAX_RETRIES))
                 (returnIO False)))"
  by pat_completeness auto
termination
  by (relation "measure (\<lambda>(W, dirName, page, screenshot, locale, size', design, outputDir,
        attempt). MAX_RETRIES - attempt)") auto

section \<open>All tasks of one output size\<close>

text \<open>
  \<^verbatim>\<open>async function launchBrowser() {
    try { if (browser) await browser.close(); } catch {}
    browser = await chromium.launch(...);
  }\<close>
\<close>

definition closeBrowser :: "'w world \<Rightarrow> (unit, 'w) io" where
  "closeBrowser W s =
     (case browser s of None \<Rightarrow> throwIO TypeError s | Some b \<Rightarrow> act W (BrowserClose b) s)"

definition launchBrowser :: "'w world \<Rightarrow> (unit, 'w) io" where
  "launchBrowser W =
     thenIO (tryIgnore (\<lambda>s. if browser s = None then returnIO () s else closeBrowser W s))
       (bindIO (perform W Launch) (\<lambda>b s. (Inr (), s\<lparr>browser := Some b\<rparr>)))"

text \<open>
  The steps that both halves of \<^verbatim>\<open>createFreshPage\<close> share: a new context and a new
  page in the current browser, navigation to the remote UI, the size selected.
\<close>

definition openPage :: "'w world \<Rightarrow> sizeSpec \<Rightarrow> jsstring \<Rightarrow> (nat \<times> nat, 'w) io" where
  "openPage W size' yuzuUrl =
     bindIO (\<lambda>s. case browser s of None \<Rightarrow> throwIO TypeError s
                  | Some b \<Rightarrow> perform W (NewContext b) s) (\<lambda>context.
       bindIO (perform W (NewPage context)) (\<lambda>page.
         thenIO
           (seqIO
              [pageDo W page (Goto yuzuUrl),
               pageDo W page (WaitForTimeout 1000),
               selectOutputSize W page size'])
           (returnIO (context, page))))"

definition createFreshPage :: "'w world \<Rightarrow> sizeSpec \<Rightarrow> jsstring \<Rightarrow> (nat \<times> nat, 'w) io" where
  "createFreshPage W size' yuzuUrl =
     tryCatch (openPage W size' yuzuUrl)
       (\<lambda>err.
          thenIO (logIO BrowserCrashed)
            (thenIO (launchBrowser W) (openPage W size' yuzuUrl)))"

text \<open>The variables of the loop of \<^verbatim>\<open>processSize\<close>.\<close>

record loopVars =
  "context" :: nat
  page :: nat
  processedInContext :: nat
  successCount :: nat
  failureCount :: nat

definition CONTEXT_REFRESH_INTERVAL :: "sizeSpec \<Rightarrow> nat" where
  "CONTEXT_REFRESH_INTERVAL size' =
     (let isIpad = includesStr (toLowerCase (device size')) (js ''ipad'')
      in if isIpad then 6 else 12)"

text \<open>
  \<^verbatim>\<open>try { await context.close(); } catch {}
  ({ context, page } = await createFreshPage());
  processedInContext = 0;\<close>
\<close>

definition recreateSession ::
  "'w world \<Rightarrow> sizeSpec \<Rightarrow> jsstring \<Rightarrow> loopVars \<Rightarrow> (loopVars, 'w) io" where
  "recreateSession W size' yuzuUrl v =
     thenIO (tryIgnore (act W (ContextClose (context v))))
       (bindIO (createFreshPage W size' yuzuUrl) (\<lambda>(c, p).
          returnIO (v\<lparr>context := c, page := p, processedInContext := 0\<rparr>)))"

text \<open>The refresh at the head of the loop body.\<close>

definition refreshIfDue ::
  "'w world \<Rightarrow> sizeSpec \<Rightarrow> jsstring \<Rightarrow> loopVars \<Rightarrow> (loopVars, 'w) io" where
  "refreshIfDue W size' yuzuUrl v =
     (if CONTEXT_REFRESH_INTERVAL size' \<le> processedInContext v then
        thenIO (logIO (Refreshing (processedInContext v))) (recreateSession W size' yuzuUrl v)
      else returnIO v)"

text \<open>
  The task itself, with the recovery from an exception that \<^verbatim>\<open>processScreenshot\<close> lets
  through; the result is the loop variables and \<^verbatim>\<open>success\<close>.
\<close>

definition runTask ::
  "'w world \<Rightarrow> jsstring \<Rightarrow> sizeSpec \<Rightarrow> jsstring \<Rightarrow> config \<Rightarrow> screenshot \<Rightarrow> jsstring \<Rightarrow>
     loopVars \<Rightarrow> (loopVars \<times> bool, 'w) io" where
  "runTask W dirName size' yuzuUrl config screenshot locale v =
     (let outputDir = join [dirName, outputPath config] in
      tryCatch
        (bindIO
           (processScreenshot W dirName (page v) screenshot locale size' (designOf config)
              outputDir 1)
           (\<lambda>success. returnIO (v, success)))
        (\<lambda>fatalError.
           thenIO (logIO (Recovering fatalError))
             (bindIO (recreateSession W size' yuzuUrl v) (\<lambda>v'.
                tryCatch
                  (bindIO
                     (processScreenshot W dirName (page v') screenshot locale size'
                        (designOf config) outputDir 1)
                     (\<lambda>success. returnIO (v', success)))
                  (\<lambda>retryError.
                     thenIO (logIO (Skipping retryError)) (returnIO (v', False)))))))"

text \<open>The body of the inner loop, for one screenshot and one locale.\<close>

definition loopBody ::
  "'w world \<Rightarrow> jsstring \<Rightarrow> sizeSpec \<Rightarrow> jsstring \<Rightarrow> config \<Rightarrow> screenshot \<Rightarrow> jsstring \<Rightarrow>
     loopVars \<Rightarrow> (loopVars, 'w) io" where
  "loopBody W dirName size' yuzuUrl config screenshot locale v =
     bindIO (refreshIfDue W size' yuzuUrl v) (\<lambda>v1.
       bindIO (runTask W dirName size' yuzuUrl config screenshot locale v1) (\<lambda>(v2, success).
         returnIO
           (if success
            then v2\<lparr>processedInContext := processedInContext v2 + 1,
                    successCount := successCount v2 + 1\<rparr>
            else v2\<lparr>processedInContext := processedInContext v2 + 1,
                    failureCount := failureCount v2 + 1\<rparr>)))"

text \<open>\<^verbatim>\<open>for (const locale of Object.keys(screenshot.titles))\<close>\<close>

fun localesLoop ::
  "'w world \<Rightarrow> jsstring \<Rightarrow> sizeSpec \<Rightarrow> jsstring \<Rightarrow> config \<Rightarrow> screenshot \<Rightarrow> jsstring list \<Rightarrow>
     loopVars \<Rightarrow> (loopVars, 'w) io" where
  "localesLoop W dirName size' yuzuUrl config screenshot [] v = returnIO v"
| "localesLoop W dirName size' yuzuUrl config screenshot (locale # rest) v =
     bindIO (loopBody W dirName size' yuzuUrl config screenshot locale v)
       (localesLoop W dirName size' yuzuUrl config screenshot rest)"

text \<open>\<^verbatim>\<open>for (const screenshot of config.screenshots)\<close>\<close>

fun screenshotsLoop ::
  "'w world \<Rightarrow> jsstring \<Rightarrow> sizeSpec \<Rightarrow> jsstring \<Rightarrow> config \<Rightarrow> screenshot list \<Rightarrow>
     loopVars \<Rightarrow> (loopVars, 'w) io" where
  "screenshotsLoop W dirName size' yuzuUrl config [] v = returnIO v"
| "screenshotsLoop W dirName size' yuzuUrl config (screenshot # rest) v =
     bindIO
       (localesLoop W dirName size' yuzuUrl config screenshot (map fst (titles screenshot)) v)
       (screenshotsLoop W dirName size' yuzuUrl config rest)"

text \<open>
  \<^verbatim>\<open>processSize\<close>. The first \<^verbatim>\<open>launchBrowser()\<close> stands before the \<^verbatim>\<open>try\<close>; the
  \<^verbatim>\<open>finally\<close> closes the browser whatever the block did.
\<close>

definition processSize ::
  "'w world \<Rightarrow> jsstring \<Rightarrow> sizeSpec \<Rightarrow> jsstring \<Rightarrow> config \<Rightarrow> (nat \<times> nat, 'w) io" where
  "processSize W dirName size' yuzuUrl config =
     thenIO (\<lambda>s. (Inr (), s\<lparr>browser := None\<rparr>))
       (thenIO (launchBrowser W)
          (finallyIO
             (thenIO (logIO (SizeHeader (device size') (width size') (height size')))
                (bindIO (createFreshPage W size' yuzuUrl) (\<lambda>(c, p).
                   thenIO (logIO Navigating)
                     (bindIO
                        (screenshotsLoop W dirName size' yuzuUrl config (screenshots config)
                           \<lparr>context = c, page = p, processedInContext = 0,
                            successCount = 0, failureCount = 0\<rparr>)
                        (\<lambda>v.
                           thenIO (tryIgnore (act W (ContextClose (context v))))
                             (returnIO (successCount v, failureCount v)))))))
             (tryIgnore (closeBrowser W))))"

section \<open>The run\<close>

definition isIphone :: "sizeSpec \<Rightarrow> bool" where
  "isIphone s = includesStr (toLowerCase (device s)) (js ''iphone'')"

text \<open>
  \<^verbatim>\<open>await Promise.all(iphoneSizes.map(size => processSize(size, yuzuUrl, config)))\<close>.
  Every \<^verbatim>\<open>processSize\<close> has a browser of its own (\<^verbatim>\<open>let browser\<close> is local to it) and
  the results are merged only after all of them have returned. The generator starts
  them together, so their calls interleave, and when one of them throws \<^verbatim>\<open>main\<close> exits
  while the others are still running. The model takes one schedule: they run one after
  the other, in the order of the list, and the first exception rejects the whole, so a
  size after it in the list makes no call. The order of the calls of different sizes,
  and the calls of the other sizes when one of them throws, are therefore not those of
  every run of the generator; no property below speaks about them.
\<close>

fun promiseAll ::
  "'w world \<Rightarrow> jsstring \<Rightarrow> jsstring \<Rightarrow> config \<Rightarrow> sizeSpec list \<Rightarrow> ((nat \<times> nat) list, 'w) io" where
  "promiseAll W dirName yuzuUrl config [] = returnIO []"
| "promiseAll W dirName yuzuUrl config (size' # rest) =
     bindIO (processSize W dirName size' yuzuUrl config) (\<lambda>result.
       bindIO (promiseAll W dirName yuzuUrl config rest) (\<lambda>results.
         returnIO (result # results)))"

text \<open>
  \<^verbatim>\<open>for (const size of ipadSizes) {
    console.log(...);
    const result = await processSize(size, yuzuUrl, config);
    sizeResults.push(result);
  }\<close>
\<close>

fun sequentialWave ::
  "'w world \<Rightarrow> jsstring \<Rightarrow> jsstring \<Rightarrow> config \<Rightarrow> sizeSpec list \<Rightarrow> (nat \<times> nat) list \<Rightarrow>
     ((nat \<times> nat) list, 'w) io" where
  "sequentialWave W dirName yuzuUrl config [] sizeResults = returnIO sizeResults"
| "sequentialWave W dirName yuzuUrl config (size' # rest) sizeResults =
     thenIO (logIO (WaveSequential (device size')))
       (bindIO (processSize W dirName size' yuzuUrl config) (\<lambda>result.
          sequentialWave W dirName yuzuUrl config rest (sizeResults @ [result])))"

text \<open>
  The body of \<^verbatim>\<open>main\<close> down to the two sums. Its value is
  \<open>(successCount, failureCount, totalScreenshots)\<close>. Reading \<^verbatim>\<open>titles\<close> of
  \<^verbatim>\<open>config.screenshots[0]\<close> throws when there is no first screenshot.
\<close>

definition mainBody ::
  "'w world \<Rightarrow> jsstring \<Rightarrow> jsstring list \<Rightarrow> config \<Rightarrow> (nat \<times> nat \<times> nat, 'w) io" where
  "mainBody W dirName args config =
     thenIO (logIO Banner)
       (bindIO (detectYuzuUrl W (yuzuBaseUrl args)) (\<lambda>yuzuUrl.
          case screenshots config of
            [] \<Rightarrow> throwIO TypeError
          | first # _ \<Rightarrow>
              (let totalScreenshots =
                     length (screenshots config) * length (map fst (titles first)) *
                     length (sizes config);
                   iphoneSizes = filter isIphone (sizes config);
                   ipadSizes = filter (\<lambda>s. \<not> isIphone s) (sizes config)
               in thenIO
                    (logIO
                       (ConfigLoaded (length (screenshots config))
                          (length (map fst (titles first))) (length (sizes config))
                          totalScreenshots))
                    (bindIO
                       (if iphoneSizes \<noteq> [] then
                          thenIO (logIO (Wave1 (map device iphoneSizes)))
                            (promiseAll W dirName yuzuUrl config iphoneSizes)
                        else returnIO [])
                       (\<lambda>iphoneResults.
                          bindIO (sequentialWave W dirName yuzuUrl config ipadSizes iphoneResults)
                            (\<lambda>sizeResults.
                               returnIO
                                 (foldl (\<lambda>sum r. sum + fst r) 0 sizeResults,
                                  foldl (\<lambda>sum r. sum + snd r) 0 sizeResults,
                                  totalScreenshots)))))))"

text \<open>
  \<^verbatim>\<open>main().catch(error => { console.error(...); process.exit(1); })\<close> together with the
  summary at the end of \<^verbatim>\<open>main\<close>. The value is the exit status of the process; it is 1
  as well when the process ends with a rejection that nothing handles.
\<close>

definition main :: "'w world \<Rightarrow> jsstring \<Rightarrow> jsstring list \<Rightarrow> config \<Rightarrow> 'w st \<Rightarrow> nat \<times> 'w st" where
  "main W dirName args config s =
     (case mainBody W dirName args config s of
        (Inl (Raised error), s') \<Rightarrow> (1, s'\<lparr>console := console s' @ [FatalError error]\<rparr>)
      | (Inl (Unhandled rejection), s') \<Rightarrow> (1, s')
      | (Inr (successCount', failureCount', totalScreenshots), s') \<Rightarrow>
          (if 0 < failureCount' then
             (1, s'\<lparr>console := console s' @
                     [Complete successCount' failureCount' totalScreenshots, SomeFailed]\<rparr>)
           else
             (0, s'\<lparr>console := console s' @
                     [Complete successCount' failureCount' totalScreenshots, AllGenerated]\<rparr>)))"

definition initialState :: "'w \<Rightarrow> 'w st" where
  "initialState w = \<lparr>world = w, calls = [], console = [], browser = None\<rparr>"

section \<open>Notions used to state the properties\<close>

text \<open>
  A path segment that \<^verbatim>\<open>join\<close> keeps as it is: not empty, not \<^verbatim>\<open>.\<close> or \<^verbatim>\<open>..\<close>, and
  without a slash.
\<close>

definition plainSegment :: "jsstring \<Rightarrow> bool" where
  "plainSegment seg \<longleftrightarrow>
     seg \<noteq> [] \<and> seg \<noteq> js ''.'' \<and> seg \<noteq> js ''..'' \<and> slashChar \<notin> set seg"

definition stripTrailingSlash :: "jsstring \<Rightarrow> jsstring" where
  "stripTrailingSlash path = (if trailingSeparator path then butlast path else path)"

text \<open>
  Sanitisation as the specification words it, in one pass over the label: every double
  quote becomes an underscore, every run of white space becomes one underscore, every
  other code unit stays.
\<close>

fun sanitizeSpecFrom :: "bool \<Rightarrow> jsstring \<Rightarrow> jsstring" where
  "sanitizeSpecFrom inRun [] = []"
| "sanitizeSpecFrom inRun (c # cs) =
     (if c = quoteChar then 0x5F # sanitizeSpecFrom False cs
      else if isWhitespace c then
        (if inRun then sanitizeSpecFrom True cs else 0x5F # sanitizeSpecFrom True cs)
      else c # sanitizeSpecFrom False cs)"

definition sanitizeSpec :: "jsstring \<Rightarrow> jsstring" where
  "sanitizeSpec label = sanitizeSpecFrom False label"

text \<open>Whether the probe of the local instance answers, and answers \<^verbatim>\<open>ok\<close>.\<close>

definition probeOk :: "'w world \<Rightarrow> 'w \<Rightarrow> bool" where
  "probeOk W w = (case fst (W (Fetch localUrl 3000) w) of Inl _ \<Rightarrow> False | Inr ok \<Rightarrow> ok \<noteq> 0)"

subsection \<open>Example configurations and worlds\<close>

definition sizeNamed :: "jsstring \<Rightarrow> sizeSpec" where
  "sizeNamed label =
     \<lparr>device = label, width = Num 1320, height = Num 2868, yuzuDevice = None, rawDir = None,
      sizeCornerRadius = None, border = None\<rparr>"

definition shot :: "jsstring \<Rightarrow> (jsstring \<times> jsstring) list \<Rightarrow> screenshot" where
  "shot name ts = \<lparr>screenshotId = name, titles = ts\<rparr>"

definition exampleDesign :: design where
  "exampleDesign =
     \<lparr>color1 = js ''#F0B263'', color2 = js ''#FFD89B'', angle = Num 135,
      designDevice = Some None, font = Some (js ''Open Sans''),
      headlineWeight = Some (js ''900''), headlineColor = js ''#000000'',
      verticalOffset = Some (Num 5)\<rparr>"

definition configOf :: "screenshot list \<Rightarrow> sizeSpec list \<Rightarrow> config" where
  "configOf shots szs =
     \<lparr>screenshots = shots, designOf = exampleDesign,
      outputPath = js ''fastlane/screenshots'', sizes = szs\<rparr>"

text \<open>A world in which every call succeeds and the local instance answers the probe.\<close>

definition localUp :: "unit world" where
  "localUp c w = (case c of Fetch url t \<Rightarrow> (Inr 1, w) | _ \<Rightarrow> (Inr 0, w))"

text \<open>A world in which no file can be accessed; every other call succeeds.\<close>

definition noFiles :: "unit world" where
  "noFiles c w = (case c of Access p \<Rightarrow> (Inl (Thrown ''ENOENT''), w) | _ \<Rightarrow> (Inr 0, w))"

declare processScreenshot.simps [simp del]
declare clearLoop.simps [simp del]

text \<open>The attempt numbers announced on the console, in order.\<close>

fun attemptsLogged :: "logmsg list \<Rightarrow> nat list" where
  "attemptsLogged [] = []"
| "attemptsLogged (Processing prefix n m # ls) = n # attemptsLogged ls"
| "attemptsLogged (other # ls) = attemptsLogged ls"

text \<open>
  The calls a task may make on its own behalf: calls on its page, and the file system
  calls for its source and its output directory.
\<close>

fun taskCall :: "nat \<Rightarrow> call \<Rightarrow> bool" where
  "taskCall pg (OnPage q pc) = (q = pg)"
| "taskCall pg (Access path) = True"
| "taskCall pg (Mkdir path) = True"
| "taskCall pg other = False"

text \<open>
  An operation keeps to \<open>P\<close> when, from every state, it only appends calls that satisfy
  \<open>P\<close> to the calls made so far, only appends lines to the console, announces no
  attempt, and leaves the variable \<^verbatim>\<open>browser\<close> alone.
\<close>

definition keeps :: "(call \<Rightarrow> bool) \<Rightarrow> ('a, 'w) io \<Rightarrow> bool" where
  "keeps P m \<longleftrightarrow>
     (\<forall>s. \<exists>cs ls. calls (snd (m s)) = calls s @ cs \<and> list_all P cs \<and>
        console (snd (m s)) = console s @ ls \<and> attemptsLogged ls = [] \<and>
        browser (snd (m s)) = browser s)"

text \<open>The state after one more line on the console.\<close>

definition logged :: "logmsg \<Rightarrow> 'w st \<Rightarrow> 'w st" where
  "logged msg s = s\<lparr>console := console s @ [msg]\<rparr>"

text \<open>
  The calls every attempt starts with once the source file is there, and the calls of
  the \<^verbatim>\<open>catch\<close> block between two attempts.
\<close>

definition attemptStart :: "jsstring \<Rightarrow> nat \<Rightarrow> call list" where
  "attemptStart rawPath pg = [Access rawPath, OnPage pg Reload]"





definition homeScreen :: screenshot where
  "homeScreen =
     shot (js ''home-screen'')
       [(js ''en'', js ''Everything in one place''), (js ''de'', js ''Alles an einem Ort'')]"

definition iphone69 :: sizeSpec where
  "iphone69 =
     \<lparr>device = js ''iPhone 6.9\"'', width = Num 1320, height = Num 2868,
      yuzuDevice = Some (js ''iphone-6.9''), rawDir = Some (js ''raw''),
      sizeCornerRadius = None,
      border = Some \<lparr>borderWidth = Num 5, borderColor = Str (js ''#8B6914''),
                      borderOpacity = Some (Num 100)\<rparr>\<rparr>"


text \<open>
  A world in which the export button cannot be clicked, and the listener for the
  download, which nothing awaits once the click has thrown, is rejected at its timeout.
  Every other call succeeds.
\<close>

definition exportClickFails :: "unit world" where
  "exportClickFails c w =
     (case c of
        OnPage pg (Click loc t) \<Rightarrow>
          (if loc = Css (js ''#export-current'') then (Inl (Thrown ''click timeout''), w)
           else (Inr 0, w))
      | OnPage pg AbandonedDownload \<Rightarrow> (Inl (Thrown ''download timeout''), w)
      | _ \<Rightarrow> (Inr 0, w))"

text \<open>
  A world that keeps the time: its state is a clock in milliseconds. Every call
  succeeds. A fixed wait takes its time; the reload, the upload and the wait for the
  download take 29 seconds each, within the 30 seconds that Playwright and
  \<^verbatim>\<open>DOWNLOAD_TIMEOUT_MS\<close> allow them; every other call takes no time.
\<close>

definition slowPage :: "nat world" where
  "slowPage c clock =
     (Inr 0,
      clock +
        (case c of
           OnPage pg (WaitForTimeout ms) \<Rightarrow> ms
         | OnPage pg Reload \<Rightarrow> 29000
         | OnPage pg (SetInputFiles input path) \<Rightarrow> 29000
         | OnPage pg AwaitDownload \<Rightarrow> 29000
         | _ \<Rightarrow> 0))"

subsection \<open>A page whose toggles flip\<close>

text \<open>
  The state of the three toggles of the remote UI, and a world in which a click on a
  toggle flips it and reading its \<^verbatim>\<open>active\<close> class returns its state. Every other call is
  answered by \<open>other\<close>, which may succeed or throw as it likes, and leaves the toggles
  alone.
\<close>

record ui =
  frameActive :: bool
  headlineActive :: bool
  subheadlineActive :: bool

definition flipPage :: "(call \<Rightarrow> exn + nat) \<Rightarrow> ui world" where
  "flipPage other c w =
     (case c of
        OnPage pg (Click loc t) \<Rightarrow>
          (if loc = frameToggle then (Inr 0, w\<lparr>frameActive := \<not> frameActive w\<rparr>)
           else if loc = headlineToggle then (Inr 0, w\<lparr>headlineActive := \<not> headlineActive w\<rparr>)
           else if loc = subheadlineToggle then
             (Inr 0, w\<lparr>subheadlineActive := \<not> subheadlineActive w\<rparr>)
           else (other c, w))
      | OnPage pg (IsActive loc) \<Rightarrow>
          (if loc = frameToggle then (Inr (if frameActive w then 1 else 0), w)
           else if loc = headlineToggle then (Inr (if headlineActive w then 1 else 0), w)
           else if loc = subheadlineToggle then (Inr (if subheadlineActive w then 1 else 0), w)
           else (other c, w))
      | _ \<Rightarrow> (other c, w))"

fun isToggleClick :: "call \<Rightarrow> bool" where
  "isToggleClick (OnPage pg (Click loc t)) =
     (loc = frameToggle \<or> loc = headlineToggle \<or> loc = subheadlineToggle)"
| "isToggleClick c = False"

text \<open>An operation that leaves the world as it is, whatever its outcome.\<close>

definition stable :: "('a, 'w) io \<Rightarrow> bool" where
  "stable m \<longleftrightarrow> (\<forall>s. world (snd (m s)) = world s)"

text \<open>An operation that returns, from every state.\<close>

definition succeeds :: "('a, 'w) io \<Rightarrow> bool" where
  "succeeds m \<longleftrightarrow> (\<forall>s. \<exists>a s'. m s = (Inr a, s'))"

text \<open>The answers of a remote UI all of whose other calls succeed.\<close>

definition allFine :: "call \<Rightarrow> exn + nat" where
  "allFine c = Inr 0"

definition withToggles :: "bool \<Rightarrow> bool \<Rightarrow> bool \<Rightarrow> ui st" where
  "withToggles f h sub =
     initialState \<lparr>frameActive = f, headlineActive = h, subheadlineActive = sub\<rparr>"

section \<open>Properties\<close>

subsection \<open>Strings and paths\<close>

lemma js_underscore: "js ''_'' = [0x5F]"
  by (simp add: js_def)

lemma js_slash: "js ''/'' = [slashChar]"
  by (simp add: js_def slashChar_def)

lemma not_ws_underscore: "\<not> isWhitespace 0x5F"
  by (simp add: isWhitespace_def)

lemma not_ws_quote: "\<not> isWhitespace quoteChar"
  by (simp add: isWhitespace_def quoteChar_def)

lemma sanitize_refines:
  "replaceWsFrom b (js ''_'') (replaceQuotes (js ''_'') s) = sanitizeSpecFrom b s"
  by (induction s arbitrary: b) (auto simp: js_underscore not_ws_underscore not_ws_quote)

lemma sanitizeSize_spec: "sanitizeSize label = sanitizeSpec label"
  by (simp add: sanitizeSize_def sanitizeSpec_def replaceWhitespaceRuns_def sanitize_refines)

lemma splitSlash_nonempty: "splitSlash s \<noteq> []"
  by (induction s) (auto split: list.splits)

lemma splitSlash_append: "splitSlash (a @ slashChar # b) = splitSlash a @ splitSlash b"
  by (induction a) (auto simp: splitSlash_nonempty split: list.splits)

lemma splitSlash_plain: "slashChar \<notin> set s \<Longrightarrow> splitSlash s = [s]"
  by (induction s) auto

lemma normalizeStep_plain: "plainSegment seg \<Longrightarrow> normalizeStep al res seg = seg # res"
  by (simp add: normalizeStep_def plainSegment_def)

lemma normalizeStep_nonempty: "[] \<notin> set res \<Longrightarrow> [] \<notin> set (normalizeStep al res seg)"
  by (auto simp: normalizeStep_def split: list.splits)

lemma foldl_normalizeStep_nonempty:
  "[] \<notin> set res \<Longrightarrow> [] \<notin> set (foldl (normalizeStep al) res segs)"
  by (induction segs arbitrary: res) (auto simp: normalizeStep_nonempty)

lemma normalizeString_nonempty: "[] \<notin> set (normalizeString al p)"
  using foldl_normalizeStep_nonempty [of "[]" al "splitSlash p"]
  by (simp add: normalizeString_def)

lemma joinWith_empty_iff: "[] \<notin> set xs \<Longrightarrow> joinWith sep xs = [] \<longleftrightarrow> xs = []"
  by (induction sep xs rule: joinWith.induct) auto

lemma joinWith_three:
  "joinWith sep (xs @ [l, f, i]) =
     (if xs = [] then l @ sep @ f @ sep @ i
      else joinWith sep xs @ sep @ l @ sep @ f @ sep @ i)"
  by (induction sep xs rule: joinWith.induct) auto

lemma normalizeString_append_plain:
  "plainSegment seg \<Longrightarrow>
   normalizeString al (p @ slashChar # seg) = normalizeString al p @ [seg]"
  by (simp add: normalizeString_def splitSlash_append splitSlash_plain normalizeStep_plain
      plainSegment_def)

lemma normalizeString_three:
  assumes "plainSegment l" "plainSegment f" "plainSegment i"
  shows "normalizeString al (out @ slashChar # l @ slashChar # f @ slashChar # i) =
         normalizeString al out @ [l, f, i]"
proof -
  have "normalizeString al (((out @ slashChar # l) @ slashChar # f) @ slashChar # i) =
        normalizeString al out @ [l, f, i]"
    using assms by (simp only: normalizeString_append_plain) simp
  then show ?thesis by simp
qed

lemma isAbsolute_append: "isAbsolute out \<Longrightarrow> isAbsolute (out @ rest)"
  by (cases out) (auto simp: isAbsolute_def)

lemma not_trailing_plain:
  assumes "plainSegment i"
  shows "\<not> trailingSeparator (p @ slashChar # i)"
proof -
  from assms have ne: "i \<noteq> []" and "slashChar \<notin> set i"
    by (simp_all add: plainSegment_def)
  then have "last i \<noteq> slashChar"
    using last_in_set [of i] by metis
  with ne show ?thesis by (simp add: trailingSeparator_def)
qed

text \<open>
  An absolute path in normal form is a slash, its segments with slashes between them
  and perhaps one more slash.
\<close>

lemma normal_form_absolute:
  assumes "isAbsolute out" "normalizePath out = out"
  shows "stripTrailingSlash out =
         (if normalizeString False out = [] then []
          else slashChar # joinWith [slashChar] (normalizeString False out))"
proof -
  let ?N = "normalizeString False out"
  have ne: "out \<noteq> []"
    using assms(1) by (auto simp: isAbsolute_def)
  have emp: "joinWith [slashChar] ?N = [] \<longleftrightarrow> ?N = []"
    by (rule joinWith_empty_iff) (rule normalizeString_nonempty)
  show ?thesis
  proof (cases "?N = []")
    case True
    then have "out = [slashChar]"
      using assms ne by (simp add: normalizePath_def js_slash Let_def)
    then show ?thesis
      using True by (simp add: stripTrailingSlash_def trailingSeparator_def)
  next
    case False
    have "normalizePath out =
            slashChar # joinWith [slashChar] ?N @
              (if trailingSeparator out then [slashChar] else [])"
      using assms(1) ne emp False
      by (cases "trailingSeparator out") (simp_all add: normalizePath_def js_slash Let_def)
    then have eq: "out = slashChar # joinWith [slashChar] ?N @
                     (if trailingSeparator out then [slashChar] else [])"
      using assms(2) by simp
    show ?thesis
    proof (cases "trailingSeparator out")
      case True
      have "butlast out =
              butlast (slashChar # joinWith [slashChar] ?N @
                (if trailingSeparator out then [slashChar] else []))"
        using eq by (rule arg_cong)
      then have "butlast out = slashChar # joinWith [slashChar] ?N"
        using True by (simp add: butlast_append)
      then show ?thesis
        using True False by (simp add: stripTrailingSlash_def)
    next
      case F: False
      have "out = slashChar # joinWith [slashChar] ?N"
        using eq F by (simp only: if_False append_Nil2)
      then show ?thesis
        using F False by (simp add: stripTrailingSlash_def)
    qed
  qed
qed

lemma normalize_under:
  assumes "isAbsolute out" "normalizePath out = out"
    and "plainSegment l" "plainSegment f" "plainSegment i"
  shows "normalizePath (out @ slashChar # l @ slashChar # f @ slashChar # i) =
         stripTrailingSlash out @ slashChar # l @ slashChar # f @ slashChar # i"
proof -
  let ?w = "out @ slashChar # l @ slashChar # f @ slashChar # i"
  let ?N = "normalizeString False out"
  have abs: "isAbsolute ?w"
    using assms(1) by (rule isAbsolute_append)
  have ntr: "\<not> trailingSeparator ?w"
    using not_trailing_plain [OF assms(5), of "out @ slashChar # l @ slashChar # f"] by simp
  have ns: "normalizeString False ?w = ?N @ [l, f, i]"
    using assms(3-5) by (rule normalizeString_three)
  have l: "l \<noteq> []"
    using assms(3) by (simp add: plainSegment_def)
  have "normalizePath ?w = slashChar # joinWith [slashChar] (?N @ [l, f, i])"
    using abs ntr ns l by (simp add: normalizePath_def js_slash Let_def joinWith_three)
  also have "\<dots> = stripTrailingSlash out @ slashChar # l @ slashChar # f @ slashChar # i"
    by (simp add: normal_form_absolute [OF assms(1,2)] joinWith_three)
  finally show ?thesis .
qed

lemma plain_png:
  assumes "slashChar \<notin> set name"
  shows "plainSegment (name @ js ''.png'')"
proof -
  have "length (name @ js ''.png'') \<ge> 4"
    by (simp add: js_def)
  then have "name @ js ''.png'' \<noteq> js ''.''" "name @ js ''.png'' \<noteq> js ''..''"
    by (auto simp: js_def)
  moreover have "slashChar \<notin> set (js ''.png'')" "js ''.png'' \<noteq> []"
    by (simp_all add: js_def slashChar_def)
  ultimately show ?thesis
    using assms by (simp add: plainSegment_def)
qed

lemma join_under:
  assumes "isAbsolute out" "normalizePath out = out"
    and "plainSegment l" "plainSegment f" "plainSegment i"
  shows "join [out, l, f, i] =
         stripTrailingSlash out @ js ''/'' @ l @ js ''/'' @ f @ js ''/'' @ i"
proof -
  have "out \<noteq> []" "l \<noteq> []" "f \<noteq> []" "i \<noteq> []"
    using assms by (auto simp: isAbsolute_def plainSegment_def)
  then have "join [out, l, f, i] =
             normalizePath (out @ slashChar # l @ slashChar # f @ slashChar # i)"
    by (simp add: join_def js_slash)
  then show ?thesis
    using normalize_under [OF assms] by (simp add: js_slash)
qed

lemma append_slash_cancel:
  assumes "slashChar \<notin> set a" "slashChar \<notin> set b"
    and "a @ slashChar # x = b @ slashChar # y"
  shows "a = b \<and> x = y"
  using assms
proof (induction a arbitrary: b)
  case Nil
  then show ?case by (cases b) auto
next
  case (Cons c a)
  then show ?case by (cases b) auto
qed

subsection \<open>The output path of a task\<close>

text \<open>
  Claim C5, as the code has it. The output path of a task is
  \<^verbatim>\<open>join(outputDir, locale, sanitizeSize(size.device), id + '.png')\<close>, a function of
  these values alone. For an absolute output directory in normal form (what
  \<^verbatim>\<open>join(__dirname, config.output.path)\<close> yields) and a locale, a sanitised label and an
  identifier that are single path segments, the path is the output directory (less a
  trailing slash) followed by \<^verbatim>\<open>/locale/sanitizedLabel/id.png\<close>. Sanitisation is the
  one-pass replacement of the specification: every double quote and every run of white
  space becomes one underscore. Two such tasks have the same output path exactly when
  they agree on the locale, on the sanitised label and on the identifier.
\<close>

theorem C5_output_path_layout:
  assumes "isAbsolute outputDir" "normalizePath outputDir = outputDir"
    and "plainSegment l1" "plainSegment (sanitizeSize (device s1))"
        "slashChar \<notin> set (screenshotId a1)"
    and "plainSegment l2" "plainSegment (sanitizeSize (device s2))"
        "slashChar \<notin> set (screenshotId a2)"
  shows "outputPathOf outputDir l1 s1 a1 =
           stripTrailingSlash outputDir @ js ''/'' @ l1 @ js ''/'' @
             sanitizeSize (device s1) @ js ''/'' @ screenshotId a1 @ js ''.png'' \<and>
         sanitizeSize (device s1) = sanitizeSpec (device s1) \<and>
         (outputPathOf outputDir l1 s1 a1 = outputPathOf outputDir l2 s2 a2 \<longleftrightarrow>
            l1 = l2 \<and> sanitizeSize (device s1) = sanitizeSize (device s2) \<and>
            screenshotId a1 = screenshotId a2)"
proof -
  let ?f1 = "sanitizeSize (device s1)" and ?f2 = "sanitizeSize (device s2)"
  let ?i1 = "screenshotId a1 @ js ''.png''" and ?i2 = "screenshotId a2 @ js ''.png''"
  have p1: "outputPathOf outputDir l1 s1 a1 =
              stripTrailingSlash outputDir @ js ''/'' @ l1 @ js ''/'' @ ?f1 @ js ''/'' @ ?i1"
    unfolding outputPathOf_def
    by (rule join_under [OF assms(1,2,3,4) plain_png [OF assms(5)]])
  have p2: "outputPathOf outputDir l2 s2 a2 =
              stripTrailingSlash outputDir @ js ''/'' @ l2 @ js ''/'' @ ?f2 @ js ''/'' @ ?i2"
    unfolding outputPathOf_def
    by (rule join_under [OF assms(1,2,6,7) plain_png [OF assms(8)]])
  have sl: "slashChar \<notin> set l1" "slashChar \<notin> set l2" "slashChar \<notin> set ?f1"
      "slashChar \<notin> set ?f2"
    using assms by (simp_all add: plainSegment_def)
  have "l1 = l2 \<and> ?f1 = ?f2 \<and> screenshotId a1 = screenshotId a2"
    if eq: "outputPathOf outputDir l1 s1 a1 = outputPathOf outputDir l2 s2 a2"
  proof -
    from eq have e1: "l1 @ slashChar # (?f1 @ slashChar # ?i1) = l2 @ slashChar # (?f2 @ slashChar # ?i2)"
      by (simp add: p1 p2 js_slash)
    from append_slash_cancel [OF sl(1,2) e1]
    have l: "l1 = l2" and e2: "?f1 @ slashChar # ?i1 = ?f2 @ slashChar # ?i2"
      by simp_all
    from append_slash_cancel [OF sl(3,4) e2]
    show ?thesis using l by simp
  qed
  moreover have "outputPathOf outputDir l1 s1 a1 = outputPathOf outputDir l2 s2 a2"
    if "l1 = l2 \<and> ?f1 = ?f2 \<and> screenshotId a1 = screenshotId a2"
    using that by (simp add: outputPathOf_def)
  ultimately show ?thesis
    using p1 by (auto simp: sanitizeSize_spec)
qed

text \<open>
  Witness for C5: the task of the specification, locale \<^verbatim>\<open>de\<close>, label \<^verbatim>\<open>iPhone 6.9"\<close>,
  identifier \<^verbatim>\<open>home-screen\<close>, under the output directory
  \<^verbatim>\<open>/app/fastlane/screenshots\<close>; its path ends in \<^verbatim>\<open>/de/iPhone_6.9_/home-screen.png\<close>
  and differs from the path of the same task for the locale \<^verbatim>\<open>en\<close>.
\<close>

theorem C5_output_path_layout_witness:
  "isAbsolute (js ''/app/fastlane/screenshots'') \<and>
   normalizePath (js ''/app/fastlane/screenshots'') = js ''/app/fastlane/screenshots'' \<and>
   plainSegment (js ''de'') \<and> plainSegment (js ''en'') \<and>
   plainSegment (sanitizeSize (device (sizeNamed (js ''iPhone 6.9\"'')))) \<and>
   slashChar \<notin> set (screenshotId (shot (js ''home-screen'') [])) \<and>
   outputPathOf (js ''/app/fastlane/screenshots'') (js ''de'') (sizeNamed (js ''iPhone 6.9\"''))
       (shot (js ''home-screen'') []) =
     js ''/app/fastlane/screenshots/de/iPhone_6.9_/home-screen.png'' \<and>
   outputPathOf (js ''/app/fastlane/screenshots'') (js ''de'') (sizeNamed (js ''iPhone 6.9\"''))
       (shot (js ''home-screen'') []) \<noteq>
     outputPathOf (js ''/app/fastlane/screenshots'') (js ''en'') (sizeNamed (js ''iPhone 6.9\"''))
       (shot (js ''home-screen'') [])"
proof -
  let ?out = "js ''/app/fastlane/screenshots''"
  let ?s = "sizeNamed (js ''iPhone 6.9\"'')"
  let ?a = "shot (js ''home-screen'') []"
  have h1: "isAbsolute ?out" by code_simp
  have h2: "normalizePath ?out = ?out" by code_simp
  have h3: "plainSegment (js ''de'')" by code_simp
  have h4: "plainSegment (sanitizeSize (device ?s))" by code_simp
  have h5: "slashChar \<notin> set (screenshotId ?a)" by code_simp
  have h6: "plainSegment (js ''en'')" by code_simp
  have v: "stripTrailingSlash ?out @ js ''/'' @ js ''de'' @ js ''/'' @
             sanitizeSize (device ?s) @ js ''/'' @ screenshotId ?a @ js ''.png'' =
           js ''/app/fastlane/screenshots/de/iPhone_6.9_/home-screen.png''"
    by code_simp
  have d: "js ''de'' \<noteq> js ''en''" by code_simp
  note c = C5_output_path_layout [OF h1 h2 h3 h4 h5 h6 h4 h5]
  have path: "outputPathOf ?out (js ''de'') ?s ?a =
      js ''/app/fastlane/screenshots/de/iPhone_6.9_/home-screen.png''"
    using conjunct1 [OF c] v by (rule trans)
  have apart: "outputPathOf ?out (js ''de'') ?s ?a \<noteq> outputPathOf ?out (js ''en'') ?s ?a"
    using c d by blast
  from h1 h2 h3 h4 h5 h6 path apart show ?thesis
    by (intro conjI)
qed

text \<open>
  Counterexample to C5 as stated (two distinct tasks never collide): the labels
  \<^verbatim>\<open>iPhone 6.9"\<close> and \<^verbatim>\<open>iPhone  6.9"\<close> (two spaces) are different sizes with one
  sanitised label, so the two tasks of one screenshot and one locale write to the same
  file.
\<close>

theorem C5_distinct_labels_collide_counterexample:
  "sizeNamed (js ''iPhone 6.9\"'') \<noteq> sizeNamed (js ''iPhone  6.9\"'') \<and>
   outputPathOf (js ''/app/fastlane/screenshots'') (js ''de'') (sizeNamed (js ''iPhone 6.9\"''))
       (shot (js ''home-screen'') []) =
   outputPathOf (js ''/app/fastlane/screenshots'') (js ''de'') (sizeNamed (js ''iPhone  6.9\"''))
       (shot (js ''home-screen'') [])"
  by code_simp

subsection \<open>The address of the remote UI\<close>

text \<open>
  Claim C7, as the code has it. An override given on the command line that is not empty
  is used as it stands, and the local instance is not probed at all. Without one, the
  local address is used when the probe answers \<^verbatim>\<open>ok\<close> within its 3 seconds, and the
  public address otherwise. \<^verbatim>\<open>detectYuzuUrl\<close> never throws.
\<close>

theorem C7_detect_precedence:
  "fst (detectYuzuUrl W baseUrl s) =
     Inr (if truthy baseUrl then the baseUrl
          else if probeOk W (world s) then localUrl else liveDemoUrl) \<and>
   calls (snd (detectYuzuUrl W baseUrl s)) =
     calls s @ (if truthy baseUrl then [] else [Fetch localUrl 3000])"
  by (auto simp: detectYuzuUrl_def probeOk_def bindIO_def thenIO_def tryCatch_def returnIO_def
      logIO_def perform_def split: prod.splits sum.splits option.splits failure.splits)

text \<open>
  Counterexample to C7 as stated (a reachable local instance is used regardless of an
  override): in a world whose local instance answers the probe, the run started with
  \<^verbatim>\<open>--yuzu-url http://localhost:9090\<close> resolves to that override, not to the local
  address.
\<close>

theorem C7_override_beats_local_counterexample:
  "fst (detectYuzuUrl localUp None (initialState ())) = Inr localUrl \<and>
   fst (detectYuzuUrl localUp
          (yuzuBaseUrl [js ''--yuzu-url'', js ''http://localhost:9090'']) (initialState ())) =
     Inr (js ''http://localhost:9090'') \<and>
   js ''http://localhost:9090'' \<noteq> localUrl"
  by code_simp

subsection \<open>Resolving the address never fails\<close>

lemma detectYuzuUrl_result:
  "detectYuzuUrl W baseUrl s =
     (Inr (if truthy baseUrl then the baseUrl
           else if probeOk W (world s) then localUrl else liveDemoUrl),
      snd (detectYuzuUrl W baseUrl s))"
  by (auto simp: detectYuzuUrl_def probeOk_def bindIO_def thenIO_def tryCatch_def returnIO_def
      logIO_def perform_def split: prod.splits sum.splits option.splits failure.splits)

lemma detectYuzuUrl_calls:
  "calls (snd (detectYuzuUrl W baseUrl s)) =
     calls s @ (if truthy baseUrl then [] else [Fetch localUrl 3000])"
  by (auto simp: detectYuzuUrl_def probeOk_def bindIO_def thenIO_def tryCatch_def returnIO_def
      logIO_def perform_def split: prod.splits sum.splits option.splits failure.splits)

subsection \<open>An empty list of screenshots\<close>

text \<open>
  Claim C10. With no screenshot in the configuration, \<^verbatim>\<open>main\<close> throws a
  \<^verbatim>\<open>TypeError\<close> when it computes the total, right after the address of the remote UI
  is resolved: the process exits with status 1, the fatal error is the last line on the
  console, and the only call that can have been made is the probe of the local
  instance, so that no browser was launched and no size was started.
\<close>

theorem C10_empty_screenshots_abort:
  assumes "screenshots config = []"
  shows "fst (main W dirName args config s) = 1 \<and>
         calls (snd (main W dirName args config s)) =
           calls s @ (if truthy (yuzuBaseUrl args) then [] else [Fetch localUrl 3000]) \<and>
         last (console (snd (main W dirName args config s))) = FatalError TypeError"
proof -
  let ?s0 = "s\<lparr>console := console s @ [Banner]\<rparr>"
  let ?d = "detectYuzuUrl W (yuzuBaseUrl args) ?s0"
  obtain u where d: "?d = (Inr u, snd ?d)"
    using detectYuzuUrl_result [of W "yuzuBaseUrl args" ?s0] by blast
  have "mainBody W dirName args config s = bindIO (detectYuzuUrl W (yuzuBaseUrl args))
          (\<lambda>yuzuUrl. throwIO TypeError) ?s0"
    using assms by (simp add: mainBody_def thenIO_def bindIO_def logIO_def)
  also have "\<dots> = (Inl (Raised TypeError), snd ?d)"
    by (subst bindIO_def, subst d) (simp add: throwIO_def)
  finally have body: "mainBody W dirName args config s = (Inl (Raised TypeError), snd ?d)" .
  have "calls (snd ?d) = calls ?s0 @ (if truthy (yuzuBaseUrl args) then [] else [Fetch localUrl 3000])"
    by (rule detectYuzuUrl_calls)
  then show ?thesis
    by (simp add: main_def body)
qed

text \<open>
  Witness for C10: a configuration with one size and no screenshot, started without
  arguments in a world where every call succeeds. The run exits with status 1 after the
  probe alone.
\<close>

theorem C10_empty_screenshots_abort_witness:
  "screenshots (configOf [] [sizeNamed (js ''iPhone 6.9\"'')]) = [] \<and>
   fst (main localUp (js ''/app'') [] (configOf [] [sizeNamed (js ''iPhone 6.9\"'')])
          (initialState ())) = 1 \<and>
   calls (snd (main localUp (js ''/app'') [] (configOf [] [sizeNamed (js ''iPhone 6.9\"'')])
          (initialState ()))) = [Fetch localUrl 3000]"
proof -
  have h: "screenshots (configOf [] [sizeNamed (js ''iPhone 6.9\"'')]) = []"
    by (simp add: configOf_def)
  have t: "\<not> truthy (yuzuBaseUrl [])" by (simp add: truthy_def yuzuBaseUrl_def)
  from C10_empty_screenshots_abort [OF h, of localUp "js ''/app''" "[]" "initialState ()"] h t
  show ?thesis by (simp add: initialState_def)
qed

subsection \<open>A task whose source file is missing\<close>

text \<open>
  Claim C3. When the raw screenshot cannot be accessed, \<^verbatim>\<open>processScreenshot\<close> returns
  \<open>False\<close> at once, whatever the attempt number it was called with: the check of the
  file is the only call made (nothing is done on the page), the only line written is the
  error with the resolved path, and the function does not call itself again, so that a
  task started with attempt 1 never reaches attempt 2.
\<close>

theorem C3_missing_source_no_retry:
  assumes "fst (W (Access (rawPathOf dirName size' loc screenshot)) (world s)) = Inl e"
  shows "processScreenshot W dirName pg screenshot loc size' design outputDir attempt s =
           (Inr False,
            s\<lparr>world := snd (W (Access (rawPathOf dirName size' loc screenshot)) (world s)),
              calls := calls s @ [Access (rawPathOf dirName size' loc screenshot)],
              console := console s @
                [RawNotFound (logPrefixOf loc size' screenshot)
                   (rawPathOf dirName size' loc screenshot)]\<rparr>)"
proof -
  obtain w' where w: "W (Access (rawPathOf dirName size' loc screenshot)) (world s) = (Inl e, w')"
    using assms by (cases "W (Access (rawPathOf dirName size' loc screenshot)) (world s)") simp
  show ?thesis
    by (subst processScreenshot.simps)
       (simp add: attemptBody_def tryCatch_def bindIO_def thenIO_def act_def perform_def
          returnIO_def logIO_def Let_def w)
qed

text \<open>
  Witness for C3: the task \<^verbatim>\<open>(home-screen, de, iPhone 6.9")\<close> in a world without
  files. The result is \<open>False\<close>, the one call is the access check of
  \<^verbatim>\<open>/app/raw/de/home-screen.png\<close> and the one line names that path.
\<close>

theorem C3_missing_source_no_retry_witness:
  "fst (noFiles (Access (rawPathOf (js ''/app'') (sizeNamed (js ''iPhone 6.9\"'')) (js ''de'')
          (shot (js ''home-screen'') [(js ''de'', js ''Alles an einem Ort'')]))) ()) =
     Inl (Thrown ''ENOENT'') \<and>
   fst (processScreenshot noFiles (js ''/app'') 7
          (shot (js ''home-screen'') [(js ''de'', js ''Alles an einem Ort'')]) (js ''de'')
          (sizeNamed (js ''iPhone 6.9\"'')) exampleDesign (js ''/app/fastlane/screenshots'') 1
          (initialState ())) = Inr False \<and>
   calls (snd (processScreenshot noFiles (js ''/app'') 7
          (shot (js ''home-screen'') [(js ''de'', js ''Alles an einem Ort'')]) (js ''de'')
          (sizeNamed (js ''iPhone 6.9\"'')) exampleDesign (js ''/app/fastlane/screenshots'') 1
          (initialState ()))) = [Access (js ''/app/raw/de/home-screen.png'')] \<and>
   console (snd (processScreenshot noFiles (js ''/app'') 7
          (shot (js ''home-screen'') [(js ''de'', js ''Alles an einem Ort'')]) (js ''de'')
          (sizeNamed (js ''iPhone 6.9\"'')) exampleDesign (js ''/app/fastlane/screenshots'') 1
          (initialState ()))) =
     [RawNotFound (js ''  [de] [iPhone 6.9\"] home-screen'') (js ''/app/raw/de/home-screen.png'')]"
proof -
  let ?sc = "shot (js ''home-screen'') [(js ''de'', js ''Alles an einem Ort'')]"
  let ?sz = "sizeNamed (js ''iPhone 6.9\"'')"
  have h: "fst (noFiles (Access (rawPathOf (js ''/app'') ?sz (js ''de'') ?sc))
             (world (initialState ()))) = Inl (Thrown ''ENOENT'')"
    by (simp add: noFiles_def)
  have p: "rawPathOf (js ''/app'') ?sz (js ''de'') ?sc = js ''/app/raw/de/home-screen.png''"
    by code_simp
  have l: "logPrefixOf (js ''de'') ?sz ?sc = js ''  [de] [iPhone 6.9\"] home-screen''"
    by code_simp
  note c = C3_missing_source_no_retry [where W = noFiles and dirName = "js ''/app''"
      and size' = "?sz" and loc = "js ''de''" and screenshot = "?sc"
      and s = "initialState ()" and pg = 7 and design = exampleDesign
      and outputDir = "js ''/app/fastlane/screenshots''" and attempt = 1, OF h]
  show ?thesis
    unfolding c using h by (simp add: p l initialState_def)
qed

subsection \<open>What an operation leaves alone\<close>

lemma attemptsLogged_append: "attemptsLogged (a @ b) = attemptsLogged a @ attemptsLogged b"
  by (induction a rule: attemptsLogged.induct) auto

lemma bindIO_Inr: "m s = (Inr a, s') \<Longrightarrow> bindIO m f s = f a s'"
  by (simp add: bindIO_def)

lemma bindIO_Inl: "m s = (Inl e, s') \<Longrightarrow> bindIO m f s = (Inl e, s')"
  by (simp add: bindIO_def)

lemma thenIO_Inr: "m s = (Inr a, s') \<Longrightarrow> thenIO m n s = n s'"
  by (simp add: thenIO_def bindIO_def)

lemma thenIO_Inl: "m s = (Inl e, s') \<Longrightarrow> thenIO m n s = (Inl e, s')"
  by (simp add: thenIO_def bindIO_def)

lemma tryCatch_Inr: "m s = (Inr a, s') \<Longrightarrow> tryCatch m h s = (Inr a, s')"
  by (simp add: tryCatch_def)

lemma tryCatch_Inl: "m s = (Inl (Raised e), s') \<Longrightarrow> tryCatch m h s = h e s'"
  by (simp add: tryCatch_def)

lemma tryCatch_Unhandled:
  "m s = (Inl (Unhandled e), s') \<Longrightarrow> tryCatch m h s = (Inl (Unhandled e), s')"
  by (simp add: tryCatch_def)

lemma keeps_returnIO: "keeps P (returnIO a)"
  by (simp add: keeps_def returnIO_def)

lemma keeps_throwIO: "keeps P (throwIO e)"
  by (simp add: keeps_def throwIO_def)

lemma keeps_logIO: "attemptsLogged [msg] = [] \<Longrightarrow> keeps P (logIO msg)"
  by (simp add: keeps_def logIO_def)

lemma keeps_perform: "P c \<Longrightarrow> keeps P (perform W c)"
  by (auto simp: keeps_def perform_def split: prod.splits sum.splits)

lemma keeps_announce: "P c \<Longrightarrow> keeps P (announce c)"
  by (simp add: keeps_def announce_def)

lemma keeps_bindIO:
  assumes "keeps P m" "\<And>a. keeps P (f a)"
  shows "keeps P (bindIO m f)"
  unfolding keeps_def
proof
  fix s
  obtain r s1 where ms: "m s = (r, s1)" by (cases "m s")
  from assms(1) ms obtain cs ls where
    1: "calls s1 = calls s @ cs" "list_all P cs" "console s1 = console s @ ls"
       "attemptsLogged ls = []" "browser s1 = browser s"
    unfolding keeps_def by (metis snd_conv)
  show "\<exists>cs ls. calls (snd (bindIO m f s)) = calls s @ cs \<and> list_all P cs \<and>
          console (snd (bindIO m f s)) = console s @ ls \<and> attemptsLogged ls = [] \<and>
          browser (snd (bindIO m f s)) = browser s"
  proof (cases r)
    case (Inl e)
    then show ?thesis using ms 1 by (simp add: bindIO_def)
  next
    case (Inr a)
    from assms(2) [of a] obtain cs' ls' where
      2: "calls (snd (f a s1)) = calls s1 @ cs'" "list_all P cs'"
         "console (snd (f a s1)) = console s1 @ ls'" "attemptsLogged ls' = []"
         "browser (snd (f a s1)) = browser s1"
      unfolding keeps_def by blast
    have "bindIO m f s = f a s1" using ms Inr by (simp add: bindIO_def)
    then show ?thesis
      using 1 2 by (simp add: attemptsLogged_append)
  qed
qed

lemma keeps_thenIO: "keeps P m \<Longrightarrow> keeps P n \<Longrightarrow> keeps P (thenIO m n)"
  by (simp add: thenIO_def keeps_bindIO)

lemma keeps_tryCatch:
  assumes "keeps P m" "\<And>e. keeps P (h e)"
  shows "keeps P (tryCatch m h)"
  unfolding keeps_def
proof
  fix s
  obtain r s1 where ms: "m s = (r, s1)" by (cases "m s")
  from assms(1) ms obtain cs ls where
    1: "calls s1 = calls s @ cs" "list_all P cs" "console s1 = console s @ ls"
       "attemptsLogged ls = []" "browser s1 = browser s"
    unfolding keeps_def by (metis snd_conv)
  show "\<exists>cs ls. calls (snd (tryCatch m h s)) = calls s @ cs \<and> list_all P cs \<and>
          console (snd (tryCatch m h s)) = console s @ ls \<and> attemptsLogged ls = [] \<and>
          browser (snd (tryCatch m h s)) = browser s"
  proof (cases r)
    case (Inr a)
    then show ?thesis using ms 1 by (simp add: tryCatch_def)
  next
    case (Inl f)
    show ?thesis
    proof (cases f)
      case (Unhandled e)
      then show ?thesis using ms Inl 1 by (simp add: tryCatch_def)
    next
      case (Raised e)
      from assms(2) [of e] obtain cs' ls' where
        2: "calls (snd (h e s1)) = calls s1 @ cs'" "list_all P cs'"
           "console (snd (h e s1)) = console s1 @ ls'" "attemptsLogged ls' = []"
           "browser (snd (h e s1)) = browser s1"
        unfolding keeps_def by blast
      have "tryCatch m h s = h e s1" using ms Inl Raised by (simp add: tryCatch_def)
      then show ?thesis
        using 1 2 by (simp add: attemptsLogged_append)
    qed
  qed
qed

lemma keeps_tryIgnore: "keeps P m \<Longrightarrow> keeps P (tryIgnore m)"
  by (simp add: tryIgnore_def keeps_tryCatch keeps_returnIO)

lemma keeps_act: "P c \<Longrightarrow> keeps P (act W c)"
  by (simp add: act_def keeps_bindIO keeps_perform keeps_returnIO)

lemma keeps_pageDo: "P (OnPage pg pc) \<Longrightarrow> keeps P (pageDo W pg pc)"
  by (simp add: pageDo_def keeps_act)

lemma keeps_pageAsk: "P (OnPage pg pc) \<Longrightarrow> keeps P (pageAsk W pg pc)"
  by (simp add: pageAsk_def keeps_perform)

lemma keeps_seqIO_Nil: "keeps P (seqIO [])"
  by (simp add: keeps_returnIO)

lemma keeps_seqIO_Cons: "keeps P m \<Longrightarrow> keeps P (seqIO ms) \<Longrightarrow> keeps P (seqIO (m # ms))"
  by (simp add: keeps_thenIO)

lemma keeps_if: "(c \<Longrightarrow> keeps P a) \<Longrightarrow> (\<not> c \<Longrightarrow> keeps P b) \<Longrightarrow> keeps P (if c then a else b)"
  by simp

lemmas keeps_intros =
  keeps_returnIO keeps_throwIO keeps_logIO keeps_announce keeps_bindIO keeps_thenIO
  keeps_tryCatch keeps_tryIgnore keeps_act keeps_pageDo keeps_pageAsk keeps_seqIO_Nil
  keeps_seqIO_Cons keeps_if

lemma keeps_ensureDir: "keeps (taskCall pg) (ensureDir W path)"
  unfolding ensureDir_def by (intro keeps_intros) simp_all

lemma keeps_waitForCanvasRender: "keeps (taskCall pg) (waitForCanvasRender W pg)"
  unfolding waitForCanvasRender_def by (intro keeps_intros) simp_all

lemma keeps_clearLoop: "keeps (taskCall pg) (clearLoop W pg n)"
proof (induction W pg n rule: clearLoop.induct)
  case (1 W page attempts)
  then show ?case
    by (subst clearLoop.simps) (intro keeps_intros; simp)
qed

lemma keeps_clearYuzuScreenshots: "keeps (taskCall pg) (clearYuzuScreenshots W pg)"
  by (simp add: clearYuzuScreenshots_def keeps_clearLoop)

lemma keeps_uploadScreenshot: "keeps (taskCall pg) (uploadScreenshot W pg path)"
  unfolding uploadScreenshot_def
  by (intro keeps_intros keeps_clearYuzuScreenshots) simp_all

lemma keeps_selectOutputSize: "keeps (taskCall pg) (selectOutputSize W pg sz)"
  unfolding selectOutputSize_def Let_def
  by (intro keeps_intros) simp_all

lemma keeps_configureBackground: "keeps (taskCall pg) (configureBackground W pg des)"
  unfolding configureBackground_def
  by (intro keeps_intros) simp_all

lemma keeps_cornerRadiusOf: "keeps P (cornerRadiusOf sz des)"
  by (auto simp: cornerRadiusOf_def keeps_returnIO keeps_throwIO split: option.splits)

lemma keeps_configureDevice: "keeps (taskCall pg) (configureDevice W pg des sz)"
  unfolding configureDevice_def
  by (cases "border sz") (simp_all, (intro keeps_intros keeps_cornerRadiusOf; simp)+)

lemma keeps_configureText: "keeps (taskCall pg) (configureText W pg des title)"
  unfolding configureText_def Let_def
  by (cases title) (simp_all, (intro keeps_intros keeps_waitForCanvasRender; simp)+)

lemma keeps_abandonDownload: "keeps (taskCall pg) (abandonDownload W pg e)"
proof -
  have "keeps (taskCall pg) (perform W (OnPage pg AbandonedDownload))"
    by (rule keeps_perform) simp
  then show ?thesis
    unfolding keeps_def abandonDownload_def
    by (auto split: prod.splits sum.splits failure.splits) (metis snd_conv)+
qed

lemma keeps_exportScreenshot: "keeps (taskCall pg) (exportScreenshot W pg path)"
  unfolding exportScreenshot_def
  by (intro keeps_intros keeps_ensureDir keeps_abandonDownload) simp_all

lemma keepsD:
  assumes "keeps P m" "m s = (r, s')"
  shows "\<exists>cs ls. calls s' = calls s @ cs \<and> list_all P cs \<and>
           console s' = console s @ ls \<and> attemptsLogged ls = [] \<and> browser s' = browser s"
  using assms unfolding keeps_def by (metis snd_conv)

lemma logIO_logged: "logIO msg s = (Inr (), logged msg s)"
  by (simp add: logIO_def logged_def)

text \<open>The steps of an attempt after the reload.\<close>

lemma keeps_afterReload:
  "keeps (taskCall pg)
     (seqIO
        [pageDo W pg (WaitForTimeout 500),
         selectOutputSize W pg sz,
         uploadScreenshot W pg rawPath,
         configureBackground W pg des,
         configureDevice W pg des sz,
         configureText W pg des title,
         exportScreenshot W pg outPath])"
  by (intro keeps_seqIO_Cons keeps_seqIO_Nil keeps_pageDo keeps_selectOutputSize
      keeps_uploadScreenshot keeps_configureBackground keeps_configureDevice
      keeps_configureText keeps_exportScreenshot) simp

lemma attemptBody_raises:
  assumes "attemptBody W dirName pg sc loc sz des out n s = (Inl e, s')"
  shows "attemptsLogged (console s') = attemptsLogged (console s) @ [n] \<and>
         (\<exists>cs. calls s' = calls s @ attemptStart (rawPathOf dirName sz loc sc) pg @ cs \<and>
               list_all (taskCall pg) cs) \<and>
         browser s' = browser s"
proof -
  let ?raw = "rawPathOf dirName sz loc sc"
  let ?pre = "logPrefixOf loc sz sc"
  let ?rest = "seqIO
        [pageDo W pg (WaitForTimeout 500),
         selectOutputSize W pg sz,
         uploadScreenshot W pg ?raw,
         configureBackground W pg des,
         configureDevice W pg des sz,
         configureText W pg des (map_of (titles sc) loc),
         exportScreenshot W pg (outputPathOf out loc sz sc)]"
  obtain r w' where acc: "W (Access ?raw) (world s) = (r, w')"
    by (cases "W (Access ?raw) (world s)")
  show ?thesis
  proof (cases r)
    case (Inl x)
    then have "attemptBody W dirName pg sc loc sz des out n s =
                 (Inr False, logged (RawNotFound ?pre ?raw)
                    (s\<lparr>world := w', calls := calls s @ [Access ?raw]\<rparr>))"
      using acc
      by (simp add: attemptBody_def tryCatch_def bindIO_def thenIO_def act_def perform_def
          returnIO_def logIO_def logged_def Let_def)
    with assms show ?thesis by simp
  next
    case (Inr k)
    let ?sa = "logged (Processing ?pre n MAX_RETRIES)
                 (s\<lparr>world := w', calls := calls s @ [Access ?raw]\<rparr>)"
    have body: "attemptBody W dirName pg sc loc sz des out n s =
                  thenIO (thenIO (pageDo W pg Reload) ?rest)
                    (thenIO (logIO (Done ?pre)) (returnIO True)) ?sa"
      using acc Inr
      by (simp add: attemptBody_def tryCatch_def bindIO_def thenIO_def act_def perform_def
          returnIO_def logIO_def logged_def Let_def)
    obtain r1 s1 where rel: "pageDo W pg Reload ?sa = (r1, s1)"
      by (cases "pageDo W pg Reload ?sa")
    have s1: "calls s1 = calls ?sa @ [OnPage pg Reload]" "console s1 = console ?sa"
        "browser s1 = browser ?sa"
      using rel
      by (auto simp: pageDo_def act_def bindIO_def perform_def returnIO_def
          split: prod.splits sum.splits)
    show ?thesis
    proof (cases r1)
      case (Inl x)
      then have "attemptBody W dirName pg sc loc sz des out n s = (Inl x, s1)"
        using body rel by (simp add: thenIO_def bindIO_def)
      with assms have "s' = s1" by simp
      then show ?thesis
        using s1 by (simp add: logged_def attemptsLogged_append attemptStart_def)
    next
      case (Inr u)
      obtain r2 s2 where rest: "?rest s1 = (r2, s2)"
        by (cases "?rest s1")
      from keepsD [OF keeps_afterReload rest] obtain cs ls where
        k: "calls s2 = calls s1 @ cs" "list_all (taskCall pg) cs"
           "console s2 = console s1 @ ls" "attemptsLogged ls = []" "browser s2 = browser s1"
        by blast
      show ?thesis
      proof (cases r2)
        case (Inl x)
        then have "attemptBody W dirName pg sc loc sz des out n s = (Inl x, s2)"
          using body rel Inr rest by (simp add: thenIO_def bindIO_def)
        with assms have "s' = s2" by simp
        then show ?thesis
          using s1 k by (simp add: logged_def attemptsLogged_append attemptStart_def)
      next
        case R: (Inr u2)
        then have "fst (attemptBody W dirName pg sc loc sz des out n s) = Inr True"
          using body rel Inr rest
          by (simp add: thenIO_def bindIO_def logIO_def returnIO_def)
        with assms show ?thesis by simp
      qed
    qed
  qed
qed


lemma thenIO_returns:
  assumes "thenIO m n s = (Inr a, s')"
  shows "\<exists>u t. m s = (Inr u, t) \<and> n t = (Inr a, s')"
  using assms by (auto simp: thenIO_def bindIO_def split: prod.splits sum.splits)

lemma seqIO_Cons_returns:
  assumes "seqIO (m # ms) s = (Inr (), s')"
  shows "\<exists>t. m s = (Inr (), t) \<and> seqIO ms t = (Inr (), s')"
  using thenIO_returns [of m "seqIO ms" s "()" s'] assms by simp


subsection \<open>Evaluating a run in a given world\<close>

lemma of_char_word_inj: "(of_char x :: 16 word) = of_char y \<longleftrightarrow> x = y"
proof
  assume "(of_char x :: 16 word) = of_char y"
  then have "unat (of_char x :: 16 word) = unat (of_char y :: 16 word)" by simp
  moreover have "unat (of_char c :: 16 word) = of_char c" for c :: char
  proof -
    have "(of_char c :: 16 word) = of_nat (of_char c)" by (simp add: of_nat_of_char)
    moreover have "(of_char c :: nat) < 2 ^ 16"
    proof -
      have "(of_char c :: nat) < 256" by (rule nat_of_char_less_256)
      also have "(256 :: nat) < 2 ^ 16" by simp
      finally show ?thesis .
    qed
    ultimately show ?thesis by (simp add: unat_of_nat take_bit_nat_eq_self)
  qed
  ultimately show "x = y" by simp
qed simp

lemma js_eq_iff: "js a = js b \<longleftrightarrow> a = b"
proof -
  have "inj (\<lambda>c::char. (of_char c :: 16 word))"
    by (rule injI) (simp add: of_char_word_inj)
  then show ?thesis
    unfolding js_def by (rule inj_map_eq_map)
qed

lemmas io_defs = returnIO_def throwIO_def bindIO_def thenIO_def tryCatch_def tryIgnore_def
  logIO_def perform_def act_def announce_def pageDo_def pageAsk_def

lemmas op_defs = ensureDir_def waitForCanvasRender_def clearYuzuScreenshots_def
  uploadScreenshot_def selectOutputSize_def configureBackground_def cornerRadiusOf_def
  configureDevice_def configureText_def abandonDownload_def exportScreenshot_def




lemma selector_not_export:
  "js ''.font-option:has-text(\"'' @ x \<noteq> js ''#export-current''"
  by (simp add: js_def)

lemma deviceOption_not_export: "deviceOption a \<noteq> Css (js ''#export-current'')"
  by (simp add: deviceOption_def js_def)



lemma exportClickFails_attempt:
  "fst (attemptBody exportClickFails dirName pg homeScreen (js ''de'') iphone69 exampleDesign
          out n s) = Inl (Unhandled (Thrown ''download timeout''))"
  by (simp add: attemptBody_def io_defs op_defs clearLoop.simps exportClickFails_def
      homeScreen_def shot_def iphone69_def exampleDesign_def truthy_def orElse_def js_eq_iff
      Let_def CANVAS_WAIT_MS_def selector_not_export deviceOption_not_export frameToggle_def
      headlineToggle_def subheadlineToggle_def)

subsection \<open>The retry machine\<close>




lemma processScreenshot_retry:
  assumes "attemptBody W dirName pg sc loc sz des out n s = (Inl (Raised e), s1)"
    and "n < MAX_RETRIES"
    and "beforeRetry W pg (logPrefixOf loc sz sc)
           (logged (AttemptError (logPrefixOf loc sz sc) e) s1) = (Inr (), s2)"
  shows "processScreenshot W dirName pg sc loc sz des out n s =
         processScreenshot W dirName pg sc loc sz des out (n + 1) s2"
  using assms
  by (subst processScreenshot.simps)
     (simp add: tryCatch_Inl thenIO_Inr [OF logIO_logged] thenIO_Inr)

lemma processScreenshot_exhausted:
  assumes "attemptBody W dirName pg sc loc sz des out n s = (Inl (Raised e), s1)"
    and "\<not> n < MAX_RETRIES"
  shows "processScreenshot W dirName pg sc loc sz des out n s =
         (Inr False,
          logged (FailedAfter (logPrefixOf loc sz sc) MAX_RETRIES)
            (logged (AttemptError (logPrefixOf loc sz sc) e) s1))"
  using assms
  by (subst processScreenshot.simps)
     (simp add: tryCatch_Inl thenIO_Inr [OF logIO_logged] returnIO_def)

lemma processScreenshot_returned:
  assumes "attemptBody W dirName pg sc loc sz des out n s = (Inr b, s1)"
  shows "processScreenshot W dirName pg sc loc sz des out n s = (Inr b, s1)"
  using assms by (subst processScreenshot.simps) (simp add: tryCatch_Inr)

text \<open>
  A rejection without a handler is not an exception of the \<^verbatim>\<open>try\<close> block: the \<^verbatim>\<open>catch\<close>
  block does not turn it into a retry or into the result \<open>False\<close>.
\<close>

lemma processScreenshot_unhandled:
  assumes "attemptBody W dirName pg sc loc sz des out n s = (Inl (Unhandled e), s1)"
  shows "processScreenshot W dirName pg sc loc sz des out n s = (Inl (Unhandled e), s1)"
  using assms by (subst processScreenshot.simps) (simp add: tryCatch_Unhandled)

text \<open>
  What leaves \<^verbatim>\<open>processScreenshot\<close> instead of a result is either raised by the wait or
  the reload of a \<^verbatim>\<open>catch\<close> block, or it is a rejection without a handler; it is never an
  exception that a step inside the \<^verbatim>\<open>try\<close> block raised to its caller.
\<close>

lemma processScreenshot_throws:
  assumes "processScreenshot W dirName pg sc loc sz des out n s = (Inl f, s')"
  shows "(\<exists>t. beforeRetry W pg (logPrefixOf loc sz sc) t = (Inl f, s')) \<or>
         (\<exists>e m t. f = Unhandled e \<and>
            attemptBody W dirName pg sc loc sz des out m t = (Inl (Unhandled e), s'))"
  using assms
proof (induction W dirName pg sc loc sz des out n arbitrary: s
    rule: processScreenshot.induct)
  case (1 W dirName pg sc loc sz des out n)
  let ?pre = "logPrefixOf loc sz sc"
  obtain r s1 where body: "attemptBody W dirName pg sc loc sz des out n s = (r, s1)"
    by (cases "attemptBody W dirName pg sc loc sz des out n s")
  show ?case
  proof (cases r)
    case (Inr b)
    with body "1.prems" show ?thesis
      by (simp add: processScreenshot_returned)
  next
    case (Inl g)
    show ?thesis
    proof (cases g)
      case (Unhandled x)
      note unh = body [unfolded Inl Unhandled]
      from processScreenshot_unhandled [OF unh] "1.prems"
      have "f = Unhandled x" "s' = s1" by simp_all
      with unh show ?thesis by blast
    next
      case (Raised x)
      note raised = body [unfolded Inl Raised]
      show ?thesis
      proof (cases "n < MAX_RETRIES")
        case False
        with processScreenshot_exhausted [OF raised] "1.prems" show ?thesis by simp
      next
        case True
        obtain r2 s2 where
          br: "beforeRetry W pg ?pre (logged (AttemptError ?pre x) s1) = (r2, s2)"
          by (cases "beforeRetry W pg ?pre (logged (AttemptError ?pre x) s1)")
        show ?thesis
        proof (cases r2)
          case (Inr u)
          with br have
            br': "beforeRetry W pg ?pre (logged (AttemptError ?pre x) s1) = (Inr (), s2)"
            by simp
          from processScreenshot_retry [OF raised True br'] "1.prems"
          have "processScreenshot W dirName pg sc loc sz des out (n + 1) s2 = (Inl f, s')"
            by simp
          with "1.IH" [OF True] show ?thesis by blast
        next
          case L: (Inl y)
          have "processScreenshot W dirName pg sc loc sz des out n s = (Inl y, s2)"
            using raised True br L
            by (subst processScreenshot.simps)
               (simp add: tryCatch_Inl thenIO_Inr [OF logIO_logged] thenIO_Inl)
          with "1.prems" br L show ?thesis by auto
        qed
      qed
    qed
  qed
qed

text \<open>
  When the click on the export button throws and the abandoned listener for the
  download is rejected, the first attempt ends the process: there is no second attempt
  and no result.
\<close>

lemma processScreenshot_export_click_fails:
  "fst (processScreenshot exportClickFails (js ''/app'') 7 homeScreen (js ''de'') iphone69
          exampleDesign (js ''/app/fastlane/screenshots'') 1 (initialState ())) =
     Inl (Unhandled (Thrown ''download timeout'')) \<and>
   attemptsLogged (console (snd (processScreenshot exportClickFails (js ''/app'') 7 homeScreen
          (js ''de'') iphone69 exampleDesign (js ''/app/fastlane/screenshots'') 1
          (initialState ())))) = [1]"
proof -
  let ?body = "attemptBody exportClickFails (js ''/app'') 7 homeScreen (js ''de'') iphone69
      exampleDesign (js ''/app/fastlane/screenshots'') 1 (initialState ())"
  have a: "?body = (Inl (Unhandled (Thrown ''download timeout'')), snd ?body)"
    using exportClickFails_attempt [of "js ''/app''" 7 "js ''/app/fastlane/screenshots''" 1
        "initialState ()"]
    by (cases ?body) simp
  note p = processScreenshot_unhandled [OF a]
  have "attemptsLogged (console (snd ?body)) = attemptsLogged (console (initialState ())) @ [1]"
    using attemptBody_raises [OF a] by simp
  then show ?thesis
    using p by (simp add: initialState_def)
qed




subsection \<open>Toggles\<close>

lemma toggles_distinct:
  "frameToggle \<noteq> headlineToggle" "frameToggle \<noteq> subheadlineToggle"
  "headlineToggle \<noteq> subheadlineToggle"
  by (simp_all add: frameToggle_def headlineToggle_def subheadlineToggle_def js_eq_iff)

lemma flipPage_other: "\<not> isToggleClick c \<Longrightarrow> snd (flipPage other c w) = w"
proof (cases c)
  case (OnPage pg pc)
  assume "\<not> isToggleClick c"
  with OnPage show ?thesis
    by (cases pc) (auto simp: flipPage_def)
qed (simp_all add: flipPage_def)

lemma stable_returnIO: "stable (returnIO a)"
  by (simp add: stable_def returnIO_def)

lemma stable_throwIO: "stable (throwIO e)"
  by (simp add: stable_def throwIO_def)

lemma stable_logIO: "stable (logIO msg)"
  by (simp add: stable_def logIO_def)

lemma stable_announce: "stable (announce c)"
  by (simp add: stable_def announce_def)

lemma stable_perform: "\<not> isToggleClick c \<Longrightarrow> stable (perform (flipPage other) c)"
  using flipPage_other [of c other]
  by (auto simp: stable_def perform_def split: prod.splits sum.splits) (metis snd_conv)+

lemma stable_bindIO:
  assumes "stable m" "\<And>a. stable (f a)"
  shows "stable (bindIO m f)"
  unfolding stable_def
proof
  fix s
  obtain r s1 where ms: "m s = (r, s1)" by (cases "m s")
  with assms(1) have w: "world s1 = world s"
    unfolding stable_def by (metis snd_conv)
  show "world (snd (bindIO m f s)) = world s"
  proof (cases r)
    case (Inl e)
    with ms w show ?thesis by (simp add: bindIO_def)
  next
    case (Inr a)
    with ms have "bindIO m f s = f a s1" by (simp add: bindIO_def)
    with assms(2) [of a] w show ?thesis by (simp add: stable_def)
  qed
qed

lemma stable_thenIO: "stable m \<Longrightarrow> stable n \<Longrightarrow> stable (thenIO m n)"
  by (simp add: thenIO_def stable_bindIO)

lemma stable_tryCatch:
  assumes "stable m" "\<And>e. stable (h e)"
  shows "stable (tryCatch m h)"
  unfolding stable_def
proof
  fix s
  obtain r s1 where ms: "m s = (r, s1)" by (cases "m s")
  with assms(1) have w: "world s1 = world s"
    unfolding stable_def by (metis snd_conv)
  show "world (snd (tryCatch m h s)) = world s"
  proof (cases r)
    case (Inr a)
    with ms w show ?thesis by (simp add: tryCatch_def)
  next
    case (Inl f)
    show ?thesis
    proof (cases f)
      case (Unhandled e)
      with ms Inl w show ?thesis by (simp add: tryCatch_def)
    next
      case (Raised e)
      with ms Inl have "tryCatch m h s = h e s1" by (simp add: tryCatch_def)
      with assms(2) [of e] w show ?thesis by (simp add: stable_def)
    qed
  qed
qed

lemma stable_act: "\<not> isToggleClick c \<Longrightarrow> stable (act (flipPage other) c)"
  by (simp add: act_def stable_bindIO stable_perform stable_returnIO)

lemma stable_pageDo:
  "\<not> isToggleClick (OnPage pg pc) \<Longrightarrow> stable (pageDo (flipPage other) pg pc)"
  by (simp add: pageDo_def stable_act)

lemma stable_pageAsk:
  "\<not> isToggleClick (OnPage pg pc) \<Longrightarrow> stable (pageAsk (flipPage other) pg pc)"
  by (simp add: pageAsk_def stable_perform)

lemma stable_seqIO_Nil: "stable (seqIO [])"
  by (simp add: stable_returnIO)

lemma stable_seqIO_Cons: "stable m \<Longrightarrow> stable (seqIO ms) \<Longrightarrow> stable (seqIO (m # ms))"
  by (simp add: stable_thenIO)

lemma stable_if: "(c \<Longrightarrow> stable a) \<Longrightarrow> (\<not> c \<Longrightarrow> stable b) \<Longrightarrow> stable (if c then a else b)"
  by simp

lemmas stable_intros =
  stable_returnIO stable_throwIO stable_logIO stable_announce stable_bindIO stable_thenIO
  stable_tryCatch stable_act stable_pageDo stable_pageAsk stable_seqIO_Nil stable_seqIO_Cons
  stable_if

lemma stableD: "stable m \<Longrightarrow> m s = (r, s') \<Longrightarrow> world s' = world s"
  unfolding stable_def by (metis snd_conv)

lemma stable_waitForCanvasRender: "stable (waitForCanvasRender (flipPage other) pg)"
  unfolding waitForCanvasRender_def by (intro stable_intros) simp_all

lemma stable_cornerRadiusOf: "stable (cornerRadiusOf sz des)"
  by (auto simp: cornerRadiusOf_def stable_returnIO stable_throwIO split: option.splits)

lemma seqIO_append_returns:
  assumes "seqIO (xs @ ys) s = (Inr (), s')"
  shows "\<exists>t. seqIO xs s = (Inr (), t) \<and> seqIO ys t = (Inr (), s')"
  using assms
proof (induction xs arbitrary: s)
  case Nil
  then show ?case by (simp add: returnIO_def)
next
  case (Cons m xs)
  from Cons.prems obtain t where m: "m s = (Inr (), t)" and
    rest: "seqIO (xs @ ys) t = (Inr (), s')"
    using seqIO_Cons_returns [of m "xs @ ys" s s'] by auto
  from Cons.IH [OF rest] obtain u where
    "seqIO xs t = (Inr (), u)" "seqIO ys u = (Inr (), s')"
    by blast
  with m show ?case
    by (auto simp: thenIO_Inr)
qed

text \<open>The three toggle fragments, from any state of the toggles.\<close>

lemma click_toggle:
  assumes "pageDo (flipPage other) pg (Click loc t) s = (Inr (), s')"
  shows "loc = frameToggle \<Longrightarrow> frameActive (world s') = (\<not> frameActive (world s))"
    and "loc = headlineToggle \<Longrightarrow>
           headlineActive (world s') = (\<not> headlineActive (world s)) \<and>
           subheadlineActive (world s') = subheadlineActive (world s)"
    and "loc = subheadlineToggle \<Longrightarrow>
           subheadlineActive (world s') = (\<not> subheadlineActive (world s)) \<and>
           headlineActive (world s') = headlineActive (world s)"
  using assms toggles_distinct
  by (auto simp: pageDo_def act_def bindIO_def perform_def returnIO_def flipPage_def
      split: prod.splits sum.splits if_splits)

lemma read_toggle:
  assumes "pageAsk (flipPage other) pg (IsActive loc) s = (Inr v, s')"
  shows "world s' = world s"
    and "loc = frameToggle \<Longrightarrow> (v \<noteq> 0) = frameActive (world s)"
    and "loc = headlineToggle \<Longrightarrow> (v \<noteq> 0) = headlineActive (world s)"
    and "loc = subheadlineToggle \<Longrightarrow> (v \<noteq> 0) = subheadlineActive (world s)"
  using assms toggles_distinct
  by (auto simp: pageAsk_def perform_def flipPage_def split: prod.splits sum.splits if_splits)

lemma bindIO_returns:
  assumes "bindIO m f s = (Inr a, s')"
  shows "\<exists>v t. m s = (Inr v, t) \<and> f v t = (Inr a, s')"
  using assms by (auto simp: bindIO_def split: prod.splits sum.splits)

lemma seqIO_Nil_returns: "seqIO [] s = (r, s') \<Longrightarrow> s' = s"
  by (simp add: returnIO_def)

lemma frame_fragment:
  assumes "seqIO
             [pageDo (flipPage other) pg (Click frameToggle None),
              pageDo (flipPage other) pg (WaitForTimeout 500),
              bindIO (pageAsk (flipPage other) pg (IsActive frameToggle)) (\<lambda>borderActive.
                if borderActive = 0 then
                  seqIO
                    [pageDo (flipPage other) pg (Click frameToggle None),
                     pageDo (flipPage other) pg (WaitForTimeout 500)]
                else returnIO ()),
              pageDo (flipPage other) pg (Evaluate script),
              pageDo (flipPage other) pg (WaitForTimeout 200)] s = (Inr (), s')"
  shows "frameActive (world s')"
proof -
  let ?W = "flipPage other"
  from assms obtain t1 where
    c1: "pageDo ?W pg (Click frameToggle None) s = (Inr (), t1)" and
    r1: "seqIO
           [pageDo ?W pg (WaitForTimeout 500),
            bindIO (pageAsk ?W pg (IsActive frameToggle)) (\<lambda>borderActive.
              if borderActive = 0 then
                seqIO [pageDo ?W pg (Click frameToggle None), pageDo ?W pg (WaitForTimeout 500)]
              else returnIO ()),
            pageDo ?W pg (Evaluate script),
            pageDo ?W pg (WaitForTimeout 200)] t1 = (Inr (), s')"
    using seqIO_Cons_returns by blast
  from r1 obtain t2 where
    w1: "pageDo ?W pg (WaitForTimeout 500) t1 = (Inr (), t2)" and
    r2: "seqIO
           [bindIO (pageAsk ?W pg (IsActive frameToggle)) (\<lambda>borderActive.
              if borderActive = 0 then
                seqIO [pageDo ?W pg (Click frameToggle None), pageDo ?W pg (WaitForTimeout 500)]
              else returnIO ()),
            pageDo ?W pg (Evaluate script),
            pageDo ?W pg (WaitForTimeout 200)] t2 = (Inr (), s')"
    using seqIO_Cons_returns by blast
  from r2 obtain t3 where
    b: "bindIO (pageAsk ?W pg (IsActive frameToggle)) (\<lambda>borderActive.
          if borderActive = 0 then
            seqIO [pageDo ?W pg (Click frameToggle None), pageDo ?W pg (WaitForTimeout 500)]
          else returnIO ()) t2 = (Inr (), t3)" and
    r3: "seqIO [pageDo ?W pg (Evaluate script), pageDo ?W pg (WaitForTimeout 200)] t3 =
           (Inr (), s')"
    using seqIO_Cons_returns by blast
  have st: "stable (seqIO [pageDo ?W pg (Evaluate script), pageDo ?W pg (WaitForTimeout 200)])"
    by (intro stable_intros) simp_all
  have e3: "world s' = world t3"
    by (rule stableD [OF st r3])
  have "stable (pageDo ?W pg (WaitForTimeout 500))"
    by (intro stable_intros) simp
  then have e2: "world t2 = world t1"
    using w1 by (rule stableD)
  from bindIO_returns [OF b] obtain v u where
    rd: "pageAsk ?W pg (IsActive frameToggle) t2 = (Inr v, u)" and
    corr: "(if v = 0 then
             seqIO [pageDo ?W pg (Click frameToggle None), pageDo ?W pg (WaitForTimeout 500)]
           else returnIO ()) u = (Inr (), t3)"
    by auto
  have u: "world u = world t2" and v: "(v \<noteq> 0) = frameActive (world t2)"
    using read_toggle [OF rd] by simp_all
  have "frameActive (world t3)"
  proof (cases "v = 0")
    case True
    with corr have "seqIO [pageDo ?W pg (Click frameToggle None),
        pageDo ?W pg (WaitForTimeout 500)] u = (Inr (), t3)"
      by simp
    from seqIO_Cons_returns [OF this] obtain t4 where
      c2: "pageDo ?W pg (Click frameToggle None) u = (Inr (), t4)" and
      r4: "seqIO [pageDo ?W pg (WaitForTimeout 500)] t4 = (Inr (), t3)"
      by auto
    have "stable (seqIO [pageDo ?W pg (WaitForTimeout 500)])"
      by (intro stable_intros) simp
    then have "world t3 = world t4"
      using r4 by (rule stableD)
    moreover have "frameActive (world t4) = (\<not> frameActive (world u))"
      using click_toggle(1) [OF c2] by simp
    ultimately show ?thesis
      using True u v by simp
  next
    case False
    with corr have "t3 = u" by (simp add: returnIO_def)
    with False u v show ?thesis by simp
  qed
  with e3 show ?thesis by simp
qed

lemma headline_fragment:
  assumes "bindIO (pageAsk (flipPage other) pg (IsActive headlineToggle)) (\<lambda>isEnabled.
             if isEnabled = 0 then
               seqIO
                 [pageDo (flipPage other) pg (Click headlineToggle None),
                  pageDo (flipPage other) pg (WaitForTimeout 500)]
             else returnIO ()) s = (Inr (), s')"
  shows "headlineActive (world s')"
proof -
  let ?W = "flipPage other"
  from bindIO_returns [OF assms] obtain v u where
    rd: "pageAsk ?W pg (IsActive headlineToggle) s = (Inr v, u)" and
    corr: "(if v = 0 then
             seqIO [pageDo ?W pg (Click headlineToggle None), pageDo ?W pg (WaitForTimeout 500)]
           else returnIO ()) u = (Inr (), s')"
    by auto
  have u: "world u = world s" and v: "(v \<noteq> 0) = headlineActive (world s)"
    using read_toggle [OF rd] by simp_all
  show ?thesis
  proof (cases "v = 0")
    case True
    with corr have "seqIO [pageDo ?W pg (Click headlineToggle None),
        pageDo ?W pg (WaitForTimeout 500)] u = (Inr (), s')"
      by simp
    from seqIO_Cons_returns [OF this] obtain t4 where
      c2: "pageDo ?W pg (Click headlineToggle None) u = (Inr (), t4)" and
      r4: "seqIO [pageDo ?W pg (WaitForTimeout 500)] t4 = (Inr (), s')"
      by auto
    have "stable (seqIO [pageDo ?W pg (WaitForTimeout 500)])"
      by (intro stable_intros) simp
    then have "world s' = world t4"
      using r4 by (rule stableD)
    moreover have "headlineActive (world t4) = (\<not> headlineActive (world u))"
      using click_toggle(2) [OF c2] by simp
    ultimately show ?thesis
      using True u v by simp
  next
    case False
    with corr have "s' = u" by (simp add: returnIO_def)
    with False u v show ?thesis by simp
  qed
qed

lemma subheadline_fragment:
  assumes "bindIO (pageAsk (flipPage other) pg (IsActive subheadlineToggle)) (\<lambda>subEnabled.
             if subEnabled \<noteq> 0 then
               seqIO
                 [pageDo (flipPage other) pg (Click subheadlineToggle None),
                  pageDo (flipPage other) pg (WaitForTimeout 300)]
             else returnIO ()) s = (Inr (), s')"
  shows "\<not> subheadlineActive (world s') \<and> headlineActive (world s') = headlineActive (world s)"
proof -
  let ?W = "flipPage other"
  from bindIO_returns [OF assms] obtain v u where
    rd: "pageAsk ?W pg (IsActive subheadlineToggle) s = (Inr v, u)" and
    corr: "(if v \<noteq> 0 then
             seqIO [pageDo ?W pg (Click subheadlineToggle None),
                    pageDo ?W pg (WaitForTimeout 300)]
           else returnIO ()) u = (Inr (), s')"
    by auto
  have u: "world u = world s" and v: "(v \<noteq> 0) = subheadlineActive (world s)"
    using read_toggle [OF rd] by simp_all
  show ?thesis
  proof (cases "v = 0")
    case False
    with corr have "seqIO [pageDo ?W pg (Click subheadlineToggle None),
        pageDo ?W pg (WaitForTimeout 300)] u = (Inr (), s')"
      by simp
    from seqIO_Cons_returns [OF this] obtain t4 where
      c2: "pageDo ?W pg (Click subheadlineToggle None) u = (Inr (), t4)" and
      r4: "seqIO [pageDo ?W pg (WaitForTimeout 300)] t4 = (Inr (), s')"
      by auto
    have "stable (seqIO [pageDo ?W pg (WaitForTimeout 300)])"
      by (intro stable_intros) simp
    then have "world s' = world t4"
      using r4 by (rule stableD)
    moreover have "subheadlineActive (world t4) = (\<not> subheadlineActive (world u)) \<and>
        headlineActive (world t4) = headlineActive (world u)"
      using click_toggle(3) [OF c2] by simp
    ultimately show ?thesis
      using False u v by simp
  next
    case True
    with corr have "s' = u" by (simp add: returnIO_def)
    with True u v show ?thesis by simp
  qed
qed

lemma seqIO_single_returns: "seqIO [m] s = (Inr (), s') \<Longrightarrow> m s = (Inr (), s')"
  by (auto simp: thenIO_def bindIO_def returnIO_def split: prod.splits sum.splits)

lemma configureDevice_frame:
  assumes "configureDevice (flipPage other) pg des sz s = (Inr (), s')"
    and "border sz = Some b"
  shows "frameActive (world s')"
proof -
  let ?W = "flipPage other"
  let ?pre = "[pageDo ?W pg (Click (Css (js ''button.tab[data-tab=\"screenshot\"]'')) None),
        pageDo ?W pg (WaitForTimeout 500),
        pageDo ?W pg (WaitForSelector (js ''#device-type-selector'') 5000),
        pageDo ?W pg (Click (Css (js ''#device-type-selector button[data-type=\"2d\"]'')) None),
        pageDo ?W pg (WaitForTimeout 500),
        tryCatch
          (seqIO
             [pageDo ?W pg (Click (Css (js ''#position-preset-trigger'')) None),
              pageDo ?W pg (WaitForSelector (js ''#position-preset-content'') 3000),
              pageDo ?W pg
                (Click (Css (js ''button.position-preset[data-preset=\"bleed-bottom\"]'')) None),
              pageDo ?W pg (WaitForTimeout 300)])
          (\<lambda>err. logIO PresetUnavailable),
        bindIO (cornerRadiusOf sz des) (\<lambda>cornerRadius.
          pageDo ?W pg (Evaluate (SetValue (js ''corner-radius'') cornerRadius))),
        pageDo ?W pg (WaitForTimeout 200)]"
  let ?frag = "seqIO
              [pageDo ?W pg (Click frameToggle None),
               pageDo ?W pg (WaitForTimeout 500),
               bindIO (pageAsk ?W pg (IsActive frameToggle)) (\<lambda>borderActive.
                 if borderActive = 0 then
                   seqIO
                     [pageDo ?W pg (Click frameToggle None),
                      pageDo ?W pg (WaitForTimeout 500)]
                 else returnIO ()),
               pageDo ?W pg
                 (Evaluate
                    (SetFrame (borderWidth b) (borderColor b)
                       (case borderOpacity b of None \<Rightarrow> Num 100 | Some opacity \<Rightarrow> opacity))),
               pageDo ?W pg (WaitForTimeout 200)]"
  have "configureDevice ?W pg des sz = seqIO (?pre @ [?frag])"
    using assms(2) by (simp add: configureDevice_def)
  with assms(1) have "seqIO (?pre @ [?frag]) s = (Inr (), s')"
    by simp
  from seqIO_append_returns [OF this] obtain t where "seqIO [?frag] t = (Inr (), s')"
    by blast
  then have "?frag t = (Inr (), s')"
    by (rule seqIO_single_returns)
  then show ?thesis
    by (rule frame_fragment)
qed

lemma configureText_toggles:
  assumes "configureText (flipPage other) pg des title s = (Inr (), s')"
  shows "headlineActive (world s') \<and> \<not> subheadlineActive (world s')"
proof -
  let ?W = "flipPage other"
  let ?fontName = "orElse (font des) (js ''Open Sans'')"
  let ?A = "[pageDo ?W pg (Click (Css (js ''button.tab[data-tab=\"text\"]'')) None),
            pageDo ?W pg (WaitForTimeout 300)]"
  let ?hfrag = "bindIO (pageAsk ?W pg (IsActive headlineToggle)) (\<lambda>isEnabled.
              if isEnabled = 0 then
                seqIO
                  [pageDo ?W pg (Click headlineToggle None),
                   pageDo ?W pg (WaitForTimeout 500)]
              else returnIO ())"
  let ?B = "[(case title of
               None \<Rightarrow> throwIO (Thrown ''fill: expected string, got undefined'')
             | Some t \<Rightarrow> pageDo ?W pg (Fill (Css (js ''#headline-text'')) (Str t))),
            pageDo ?W pg (WaitForTimeout 300),
            pageDo ?W pg (Click (Css (js ''#font-picker-trigger'')) None),
            pageDo ?W pg (WaitForTimeout 200),
            pageDo ?W pg (Fill (Css (js ''#font-search'')) (Str ?fontName)),
            pageDo ?W pg (WaitForTimeout 300),
            tryCatch
              (seqIO
                 [pageDo ?W pg
                    (Click (Css (js ''.font-option:has-text(\"'' @ ?fontName @ js ''\")''))
                       (Some 3000)),
                  pageDo ?W pg (WaitForTimeout 200)])
              (\<lambda>error. logIO (FontNotFound ?fontName)),
            pageDo ?W pg (SelectOption (Css (js ''#headline-weight''))
              (orElse (headlineWeight des) (js ''900''))),
            pageDo ?W pg (WaitForTimeout 200),
            pageDo ?W pg (Fill (Css (js ''#headline-color'')) (Str (headlineColor des))),
            pageDo ?W pg (WaitForTimeout 200),
            pageDo ?W pg (Evaluate (SetValue (js ''text-offset-y'')
              (case verticalOffset des of None \<Rightarrow> Num 12 | Some v \<Rightarrow> v))),
            pageDo ?W pg (WaitForTimeout 200)]"
  let ?sfrag = "bindIO (pageAsk ?W pg (IsActive subheadlineToggle)) (\<lambda>subEnabled.
              if subEnabled \<noteq> 0 then
                seqIO
                  [pageDo ?W pg (Click subheadlineToggle None),
                   pageDo ?W pg (WaitForTimeout 300)]
              else returnIO ())"
  have "configureText ?W pg des title =
          seqIO (?A @ [?hfrag] @ ?B @ [?sfrag] @ [waitForCanvasRender ?W pg])"
    by (simp add: configureText_def Let_def)
  with assms have run: "seqIO (?A @ [?hfrag] @ ?B @ [?sfrag] @ [waitForCanvasRender ?W pg]) s =
      (Inr (), s')"
    by simp
  from seqIO_append_returns [OF run] obtain t0 where
    r0: "seqIO ([?hfrag] @ ?B @ [?sfrag] @ [waitForCanvasRender ?W pg]) t0 = (Inr (), s')"
    by blast
  from seqIO_append_returns [OF r0] obtain t1 where
    h: "seqIO [?hfrag] t0 = (Inr (), t1)" and
    r1: "seqIO (?B @ [?sfrag] @ [waitForCanvasRender ?W pg]) t1 = (Inr (), s')"
    by blast
  from seqIO_append_returns [OF r1] obtain t2 where
    bb: "seqIO ?B t1 = (Inr (), t2)" and
    r2: "seqIO ([?sfrag] @ [waitForCanvasRender ?W pg]) t2 = (Inr (), s')"
    by blast
  from seqIO_append_returns [OF r2] obtain t3 where
    sf: "seqIO [?sfrag] t2 = (Inr (), t3)" and
    wc: "seqIO [waitForCanvasRender ?W pg] t3 = (Inr (), s')"
    by blast
  have h1: "headlineActive (world t1)"
    by (rule headline_fragment [OF seqIO_single_returns [OF h]])
  have notoggle: "js ''.font-option:has-text(\"'' @ x @ y \<noteq> js ''#frame-toggle''"
      "js ''.font-option:has-text(\"'' @ x @ y \<noteq> js ''#headline-toggle''"
      "js ''.font-option:has-text(\"'' @ x @ y \<noteq> js ''#subheadline-toggle''" for x y
    by (simp_all add: js_def)
  have st_title: "stable (case title of
               None \<Rightarrow> throwIO (Thrown ''fill: expected string, got undefined'')
             | Some t \<Rightarrow> pageDo ?W pg (Fill (Css (js ''#headline-text'')) (Str t)))"
    by (cases title) (simp_all add: stable_throwIO stable_pageDo)
  have st_font: "stable (pageDo ?W pg
                    (Click (Css (js ''.font-option:has-text(\"'' @ ?fontName @ js ''\")''))
                       (Some 3000)))"
    by (rule stable_pageDo)
       (simp add: notoggle frameToggle_def headlineToggle_def subheadlineToggle_def)
  have "stable (seqIO ?B)"
    by (intro stable_seqIO_Cons stable_seqIO_Nil stable_tryCatch stable_logIO st_title st_font
        stable_pageDo)
       (simp_all add: frameToggle_def headlineToggle_def subheadlineToggle_def js_eq_iff)
  then have e2: "world t2 = world t1"
    using bb by (rule stableD)
  have s3: "\<not> subheadlineActive (world t3) \<and> headlineActive (world t3) = headlineActive (world t2)"
    by (rule subheadline_fragment [OF seqIO_single_returns [OF sf]])
  have e4: "world s' = world t3"
    by (rule stableD [OF stable_waitForCanvasRender seqIO_single_returns [OF wc]])
  show ?thesis
    using h1 e2 s3 e4 by simp
qed

text \<open>When every other call on the page succeeds, the operations return.\<close>

lemma succeeds_returnIO: "succeeds (returnIO a)"
  by (simp add: succeeds_def returnIO_def)

lemma succeeds_logIO: "succeeds (logIO msg)"
  by (simp add: succeeds_def logIO_def)

lemma succeeds_bindIO:
  assumes "succeeds m" "\<And>a. succeeds (f a)"
  shows "succeeds (bindIO m f)"
  unfolding succeeds_def
proof
  fix s
  from assms(1) obtain a s1 where ms: "m s = (Inr a, s1)"
    unfolding succeeds_def by blast
  from assms(2) [of a] obtain b s2 where "f a s1 = (Inr b, s2)"
    unfolding succeeds_def by blast
  with ms have "bindIO m f s = (Inr b, s2)"
    by (simp add: bindIO_def)
  then show "\<exists>b s'. bindIO m f s = (Inr b, s')" by blast
qed

lemma succeeds_thenIO: "succeeds m \<Longrightarrow> succeeds n \<Longrightarrow> succeeds (thenIO m n)"
  by (simp add: thenIO_def succeeds_bindIO)

lemma succeeds_tryCatch:
  assumes "succeeds m"
  shows "succeeds (tryCatch m h)"
  unfolding succeeds_def
proof
  fix s
  from assms obtain a s1 where "m s = (Inr a, s1)"
    unfolding succeeds_def by blast
  then have "tryCatch m h s = (Inr a, s1)"
    by (rule tryCatch_Inr)
  then show "\<exists>a s'. tryCatch m h s = (Inr a, s')" by blast
qed

lemma flipPage_answers:
  assumes "\<forall>c. \<exists>n. other c = Inr n"
  shows "\<exists>n w'. flipPage other c w = (Inr n, w')"
proof -
  from assms obtain n where n: "other c = Inr n" by blast
  then show ?thesis
    by (cases c) (auto simp: flipPage_def split: pagecall.splits)
qed

lemma succeeds_perform:
  assumes "\<forall>c. \<exists>n. other c = Inr n"
  shows "succeeds (perform (flipPage other) c)"
  unfolding succeeds_def
proof
  fix s :: "ui st"
  from flipPage_answers [OF assms] obtain n w' where
    "flipPage other c (world s) = (Inr n, w')"
    by blast
  then have "perform (flipPage other) c s = (Inr n, s\<lparr>world := w', calls := calls s @ [c]\<rparr>)"
    by (simp add: perform_def)
  then show "\<exists>a s'. perform (flipPage other) c s = (Inr a, s')" by blast
qed

lemma succeeds_pageDo:
  "\<forall>c. \<exists>n. other c = Inr n \<Longrightarrow> succeeds (pageDo (flipPage other) pg pc)"
  by (simp add: pageDo_def act_def succeeds_bindIO succeeds_perform succeeds_returnIO)

lemma succeeds_pageAsk:
  "\<forall>c. \<exists>n. other c = Inr n \<Longrightarrow> succeeds (pageAsk (flipPage other) pg pc)"
  by (simp add: pageAsk_def succeeds_perform)

lemma succeeds_seqIO_Nil: "succeeds (seqIO [])"
  by (simp add: succeeds_returnIO)

lemma succeeds_seqIO_Cons: "succeeds m \<Longrightarrow> succeeds (seqIO ms) \<Longrightarrow> succeeds (seqIO (m # ms))"
  by (simp add: succeeds_thenIO)

lemma succeeds_if:
  "(c \<Longrightarrow> succeeds a) \<Longrightarrow> (\<not> c \<Longrightarrow> succeeds b) \<Longrightarrow> succeeds (if c then a else b)"
  by simp

lemmas succeeds_intros =
  succeeds_returnIO succeeds_logIO succeeds_bindIO succeeds_thenIO succeeds_tryCatch
  succeeds_pageDo succeeds_pageAsk succeeds_seqIO_Nil succeeds_seqIO_Cons succeeds_if

lemma succeeds_waitForCanvasRender:
  "\<forall>c. \<exists>n. other c = Inr n \<Longrightarrow> succeeds (waitForCanvasRender (flipPage other) pg)"
  unfolding waitForCanvasRender_def by (intro succeeds_intros)

lemma succeeds_cornerRadiusOf:
  "sizeCornerRadius sz \<noteq> None \<or> designDevice des \<noteq> None \<Longrightarrow> succeeds (cornerRadiusOf sz des)"
  by (auto simp: cornerRadiusOf_def succeeds_returnIO split: option.splits)

lemma succeeds_configureDevice:
  assumes "\<forall>c. \<exists>n. other c = Inr n"
    and "sizeCornerRadius sz \<noteq> None \<or> designDevice des \<noteq> None"
  shows "succeeds (configureDevice (flipPage other) pg des sz)"
  unfolding configureDevice_def
  by (cases "border sz")
     (simp_all, (intro succeeds_intros succeeds_cornerRadiusOf assms)+)

lemma succeeds_configureText:
  assumes "\<forall>c. \<exists>n. other c = Inr n"
  shows "succeeds (configureText (flipPage other) pg des (Some title))"
  unfolding configureText_def Let_def
  by (simp, (intro succeeds_intros succeeds_waitForCanvasRender assms)+)

lemma succeedsD: "succeeds m \<Longrightarrow> \<exists>a s'. m s = (Inr a, s')"
  unfolding succeeds_def by blast

text \<open>
  Claim C8. On a page whose toggles flip at a click and whose other controls answer
  every call, the toggle operations return and leave each toggle in the requested
  state, from every state of the page before: \<^verbatim>\<open>configureDevice\<close> for a size with a
  border leaves the frame toggle active (click, read back, click again if it went
  off); \<^verbatim>\<open>configureText\<close> leaves the headline toggle active (read, click if it is off)
  and the subheadline toggle inactive (read, click if it is on). The states \<open>s\<close> and
  \<open>t\<close> before the operations are arbitrary, so each toggle may be on or off there. By
  \<open>configureDevice_frame\<close> and \<open>configureText_toggles\<close> the toggles are in the requested
  state also on a page where other controls fail, whenever the operation returns.
\<close>

theorem C8_toggle_verification:
  assumes "\<forall>c. \<exists>n. other c = Inr n"
    and "border sz = Some b"
    and "sizeCornerRadius sz \<noteq> None \<or> designDevice des \<noteq> None"
  shows "(\<exists>s'. configureDevice (flipPage other) pg des sz s = (Inr (), s') \<and>
               frameActive (world s')) \<and>
         (\<exists>t'. configureText (flipPage other) pg des (Some title) t = (Inr (), t') \<and>
               headlineActive (world t') \<and> \<not> subheadlineActive (world t'))"
proof -
  have "succeeds (configureDevice (flipPage other) pg des sz)"
    by (rule succeeds_configureDevice [OF assms(1,3)])
  from succeedsD [OF this, of s] obtain s' where
    d: "configureDevice (flipPage other) pg des sz s = (Inr (), s')"
    by auto
  have "succeeds (configureText (flipPage other) pg des (Some title))"
    by (rule succeeds_configureText [OF assms(1)])
  from succeedsD [OF this, of t] obtain t' where
    x: "configureText (flipPage other) pg des (Some title) t = (Inr (), t')"
    by auto
  from configureDevice_frame [OF d assms(2)] configureText_toggles [OF x] d x
  show ?thesis by blast
qed

text \<open>
  Witness for C8: a remote UI all of whose other calls succeed. From a page with the
  frame toggle off, the headline toggle off and the subheadline toggle on, and from a
  page with the frame toggle on, the headline toggle on and the subheadline toggle off,
  both operations return, and leave the frame and the headline on and the subheadline
  off.
\<close>

theorem C8_toggle_verification_witness:
  "(\<forall>c. \<exists>n. allFine c = Inr n) \<and> border iphone69 \<noteq> None \<and>
   designDevice exampleDesign \<noteq> None \<and>
   fst (configureDevice (flipPage allFine) 7 exampleDesign iphone69
          (withToggles False False True)) = Inr () \<and>
   frameActive (world (snd (configureDevice (flipPage allFine) 7 exampleDesign iphone69
          (withToggles False False True)))) \<and>
   fst (configureDevice (flipPage allFine) 7 exampleDesign iphone69
          (withToggles True True False)) = Inr () \<and>
   frameActive (world (snd (configureDevice (flipPage allFine) 7 exampleDesign iphone69
          (withToggles True True False)))) \<and>
   fst (configureText (flipPage allFine) 7 exampleDesign (Some (js ''Alles an einem Ort''))
          (withToggles False False True)) = Inr () \<and>
   headlineActive (world (snd (configureText (flipPage allFine) 7 exampleDesign
          (Some (js ''Alles an einem Ort'')) (withToggles False False True)))) \<and>
   \<not> subheadlineActive (world (snd (configureText (flipPage allFine) 7 exampleDesign
          (Some (js ''Alles an einem Ort'')) (withToggles False False True)))) \<and>
   fst (configureText (flipPage allFine) 7 exampleDesign (Some (js ''Alles an einem Ort''))
          (withToggles True True False)) = Inr () \<and>
   headlineActive (world (snd (configureText (flipPage allFine) 7 exampleDesign
          (Some (js ''Alles an einem Ort'')) (withToggles True True False)))) \<and>
   \<not> subheadlineActive (world (snd (configureText (flipPage allFine) 7 exampleDesign
          (Some (js ''Alles an einem Ort'')) (withToggles True True False))))"
proof -
  have fine: "\<forall>c. \<exists>n. allFine c = Inr n"
    by (simp add: allFine_def)
  have b: "border iphone69 =
      Some \<lparr>borderWidth = Num 5, borderColor = Str (js ''#8B6914''),
            borderOpacity = Some (Num 100)\<rparr>"
    by (simp add: iphone69_def)
  have d: "designDevice exampleDesign \<noteq> None"
    by (simp add: exampleDesign_def)
  then have r: "sizeCornerRadius iphone69 \<noteq> None \<or> designDevice exampleDesign \<noteq> None"
    by simp
  note off = C8_toggle_verification [OF fine b r, where pg = 7
      and s = "withToggles False False True" and title = "js ''Alles an einem Ort''"
      and t = "withToggles False False True"]
  note on = C8_toggle_verification [OF fine b r, where pg = 7
      and s = "withToggles True True False" and title = "js ''Alles an einem Ort''"
      and t = "withToggles True True False"]
  from b have b': "border iphone69 \<noteq> None" by simp
  have run: "(\<exists>s'. m = (Inr (), s') \<and> P s') \<Longrightarrow> fst m = Inr () \<and> P (snd m)"
    for m :: "(failure + unit) \<times> ui st" and P
    by auto
  from off have o1: "fst (configureDevice (flipPage allFine) 7 exampleDesign iphone69
          (withToggles False False True)) = Inr () \<and>
      frameActive (world (snd (configureDevice (flipPage allFine) 7 exampleDesign iphone69
          (withToggles False False True))))"
    by (intro run) blast
  from on have o2: "fst (configureDevice (flipPage allFine) 7 exampleDesign iphone69
          (withToggles True True False)) = Inr () \<and>
      frameActive (world (snd (configureDevice (flipPage allFine) 7 exampleDesign iphone69
          (withToggles True True False))))"
    by (intro run) blast
  from off have o3: "fst (configureText (flipPage allFine) 7 exampleDesign
          (Some (js ''Alles an einem Ort'')) (withToggles False False True)) = Inr () \<and>
      (headlineActive (world (snd (configureText (flipPage allFine) 7 exampleDesign
          (Some (js ''Alles an einem Ort'')) (withToggles False False True)))) \<and>
       \<not> subheadlineActive (world (snd (configureText (flipPage allFine) 7 exampleDesign
          (Some (js ''Alles an einem Ort'')) (withToggles False False True)))))"
    by (intro run [where P = "\<lambda>x. headlineActive (world x) \<and> \<not> subheadlineActive (world x)"])
       blast
  from on have o4: "fst (configureText (flipPage allFine) 7 exampleDesign
          (Some (js ''Alles an einem Ort'')) (withToggles True True False)) = Inr () \<and>
      (headlineActive (world (snd (configureText (flipPage allFine) 7 exampleDesign
          (Some (js ''Alles an einem Ort'')) (withToggles True True False)))) \<and>
       \<not> subheadlineActive (world (snd (configureText (flipPage allFine) 7 exampleDesign
          (Some (js ''Alles an einem Ort'')) (withToggles True True False)))))"
    by (intro run [where P = "\<lambda>x. headlineActive (world x) \<and> \<not> subheadlineActive (world x)"])
       blast
  from fine b' d o1 o2 o3 o4 show ?thesis
    by (intro conjI) blast+
qed

subsection \<open>The time one attempt takes\<close>

lemma js_Nil_iff: "js a = [] \<longleftrightarrow> a = []"
  by (simp add: js_def)

lemma slowPage_attempt:
  "attemptBody slowPage dirName pg homeScreen (js ''de'') iphone69 exampleDesign out n s =
     (Inr True, snd (attemptBody slowPage dirName pg homeScreen (js ''de'') iphone69
        exampleDesign out n s)) \<and>
   world (snd (attemptBody slowPage dirName pg homeScreen (js ''de'') iphone69
        exampleDesign out n s)) = world s + 97900 \<and>
   attemptsLogged (console (snd (attemptBody slowPage dirName pg homeScreen (js ''de'') iphone69
        exampleDesign out n s))) = attemptsLogged (console s) @ [n]"
  by (simp add: attemptBody_def io_defs op_defs clearLoop.simps slowPage_def homeScreen_def
      shot_def iphone69_def exampleDesign_def truthy_def orElse_def js_eq_iff Let_def
      CANVAS_WAIT_MS_def attemptsLogged_append js_Nil_iff)

text \<open>
  Claim C9 fails on the code. \<^verbatim>\<open>PER_SCREENSHOT_TIMEOUT_MS\<close> is declared with the comment
  \<^verbatim>\<open>90s max per screenshot before retry\<close> and used nowhere: no timer runs beside an
  attempt. On a page where every call succeeds, the reload, the upload and the download
  take 29 seconds each (within the 30 seconds Playwright and \<^verbatim>\<open>DOWNLOAD_TIMEOUT_MS\<close> allow
  them) and the fixed waits take their time, the first attempt of the task
  \<^verbatim>\<open>(home-screen, de, iPhone 6.9")\<close> runs for 97.9 seconds and is not cut short: it is the
  only attempt, and it returns \<open>True\<close>.
\<close>

theorem C9_slow_attempt_not_aborted:
  "fst (processScreenshot slowPage (js ''/app'') 7 homeScreen (js ''de'') iphone69
          exampleDesign (js ''/app/fastlane/screenshots'') 1 (initialState 0)) = Inr True \<and>
   attemptsLogged (console (snd (processScreenshot slowPage (js ''/app'') 7 homeScreen
          (js ''de'') iphone69 exampleDesign (js ''/app/fastlane/screenshots'') 1
          (initialState 0)))) = [1] \<and>
   world (snd (processScreenshot slowPage (js ''/app'') 7 homeScreen
          (js ''de'') iphone69 exampleDesign (js ''/app/fastlane/screenshots'') 1
          (initialState 0))) = 97900 \<and>
   PER_SCREENSHOT_TIMEOUT_MS < 97900"
proof -
  let ?body = "attemptBody slowPage (js ''/app'') 7 homeScreen (js ''de'') iphone69
      exampleDesign (js ''/app/fastlane/screenshots'') 1 (initialState 0)"
  note a = slowPage_attempt [of "js ''/app''" 7 "js ''/app/fastlane/screenshots''" 1
      "initialState 0"]
  from a have run: "?body = (Inr True, snd ?body)" by blast
  note p = processScreenshot_returned [OF run]
  have r: "fst (processScreenshot slowPage (js ''/app'') 7 homeScreen (js ''de'') iphone69
          exampleDesign (js ''/app/fastlane/screenshots'') 1 (initialState 0)) = Inr True"
    by (simp only: p fst_conv)
  have l: "attemptsLogged (console (snd (processScreenshot slowPage (js ''/app'') 7 homeScreen
          (js ''de'') iphone69 exampleDesign (js ''/app/fastlane/screenshots'') 1
          (initialState 0)))) = [1]"
    using a by (simp only: p snd_conv) (simp add: initialState_def)
  have w: "world (snd (processScreenshot slowPage (js ''/app'') 7 homeScreen
          (js ''de'') iphone69 exampleDesign (js ''/app/fastlane/screenshots'') 1
          (initialState 0))) = 97900"
    using a by (simp only: p snd_conv) (simp add: initialState_def)
  have t: "PER_SCREENSHOT_TIMEOUT_MS < 97900"
    by (simp add: PER_SCREENSHOT_TIMEOUT_MS_def)
  from r l w t show ?thesis by (intro conjI)
qed

end
